theory Spec2Isabelle
  imports Complex_Main "HOL-Library.Multiset" "HOL-Library.Log_Nat"
begin

section \<open>JavaScript numbers\<close>

text \<open>
  The optimizer front end (\<^verbatim>\<open>src/quorum-optimizer.jsx\<close>) computes with JavaScript
  numbers. A number is a rational or one of the three non-finite values of IEEE 754, so
  that a division by zero is a value of the model, as it is in the program, and not an
  unspecified term. The sign of zero is not modelled: a zero divisor is taken as \<open>+0\<close>.

  This section has the operations before rounding: what they do with the non-finite
  values, with a zero divisor and with the order of their arguments. The rounding of
  each result to a double comes with the section on double precision; the values the
  program returns are stated there.
\<close>

datatype jsnum = Num rat | PosInf | NegInf | NaN

fun js_neg :: "jsnum \<Rightarrow> jsnum" where
  "js_neg (Num a) = Num (- a)"
| "js_neg PosInf = NegInf"
| "js_neg NegInf = PosInf"
| "js_neg NaN = NaN"

fun js_add :: "jsnum \<Rightarrow> jsnum \<Rightarrow> jsnum" where
  "js_add (Num a) (Num b) = Num (a + b)"
| "js_add NaN _ = NaN"
| "js_add _ NaN = NaN"
| "js_add PosInf NegInf = NaN"
| "js_add NegInf PosInf = NaN"
| "js_add PosInf _ = PosInf"
| "js_add _ PosInf = PosInf"
| "js_add NegInf _ = NegInf"
| "js_add _ NegInf = NegInf"

definition js_sub :: "jsnum \<Rightarrow> jsnum \<Rightarrow> jsnum" where
  "js_sub a b = js_add a (js_neg b)"

fun js_mul :: "jsnum \<Rightarrow> jsnum \<Rightarrow> jsnum" where
  "js_mul (Num a) (Num b) = Num (a * b)"
| "js_mul NaN _ = NaN"
| "js_mul _ NaN = NaN"
| "js_mul PosInf (Num b) = (if b = 0 then NaN else if 0 < b then PosInf else NegInf)"
| "js_mul NegInf (Num b) = (if b = 0 then NaN else if 0 < b then NegInf else PosInf)"
| "js_mul (Num a) PosInf = (if a = 0 then NaN else if 0 < a then PosInf else NegInf)"
| "js_mul (Num a) NegInf = (if a = 0 then NaN else if 0 < a then NegInf else PosInf)"
| "js_mul PosInf PosInf = PosInf"
| "js_mul PosInf NegInf = NegInf"
| "js_mul NegInf PosInf = NegInf"
| "js_mul NegInf NegInf = PosInf"

fun js_div :: "jsnum \<Rightarrow> jsnum \<Rightarrow> jsnum" where
  "js_div (Num a) (Num b) =
     (if b = 0 then (if a = 0 then NaN else if 0 < a then PosInf else NegInf)
      else Num (a / b))"
| "js_div NaN _ = NaN"
| "js_div _ NaN = NaN"
| "js_div (Num a) PosInf = Num 0"
| "js_div (Num a) NegInf = Num 0"
| "js_div PosInf (Num b) = (if 0 \<le> b then PosInf else NegInf)"
| "js_div NegInf (Num b) = (if 0 \<le> b then NegInf else PosInf)"
| "js_div PosInf PosInf = NaN"
| "js_div PosInf NegInf = NaN"
| "js_div NegInf PosInf = NaN"
| "js_div NegInf NegInf = NaN"

text \<open>\<^verbatim>\<open>a > b\<close>: false as soon as one side is \<^verbatim>\<open>NaN\<close>.\<close>

fun js_gt :: "jsnum \<Rightarrow> jsnum \<Rightarrow> bool" where
  "js_gt (Num a) (Num b) = (b < a)"
| "js_gt NaN _ = False"
| "js_gt _ NaN = False"
| "js_gt PosInf PosInf = False"
| "js_gt PosInf _ = True"
| "js_gt _ PosInf = False"
| "js_gt NegInf _ = False"
| "js_gt _ NegInf = True"

text \<open>\<^verbatim>\<open>a <= b\<close>, used to state orderings of results.\<close>

fun js_le :: "jsnum \<Rightarrow> jsnum \<Rightarrow> bool" where
  "js_le (Num a) (Num b) = (a \<le> b)"
| "js_le NaN _ = False"
| "js_le _ NaN = False"
| "js_le NegInf _ = True"
| "js_le _ PosInf = True"
| "js_le PosInf _ = False"
| "js_le _ NegInf = False"

text \<open>\<^verbatim>\<open>Math.round\<close>: the nearest integer, a tie going up.\<close>

fun js_round :: "jsnum \<Rightarrow> jsnum" where
  "js_round (Num a) = Num (of_int \<lfloor>a + 1 / 2\<rfloor>)"
| "js_round PosInf = PosInf"
| "js_round NegInf = NegInf"
| "js_round NaN = NaN"

definition is_finite :: "jsnum \<Rightarrow> bool" where
  "is_finite x = (case x of Num _ \<Rightarrow> True | _ \<Rightarrow> False)"

text \<open>A property that may be missing reads as \<^verbatim>\<open>undefined\<close>, which is \<^verbatim>\<open>NaN\<close> in
  arithmetic and falsy under \<^verbatim>\<open>||\<close>, as is the number 0.\<close>

definition to_number :: "rat option \<Rightarrow> jsnum" where
  "to_number v = (case v of None \<Rightarrow> NaN | Some a \<Rightarrow> Num a)"

definition or_else :: "rat option \<Rightarrow> rat \<Rightarrow> rat" where
  "or_else v d = (case v of None \<Rightarrow> d | Some a \<Rightarrow> if a = 0 then d else a)"

section \<open>Rows of a dimension\<close>

text \<open>
  The object literals of \<^verbatim>\<open>advertiserData\<close>: a publisher or context row carries
  \<^verbatim>\<open>impressions\<close>, \<^verbatim>\<open>visits\<close> and \<^verbatim>\<open>visitRate\<close>; a ZIP row carries \<^verbatim>\<open>dma\<close>,
  \<^verbatim>\<open>population\<close>, \<^verbatim>\<open>impressions\<close> and \<^verbatim>\<open>visits\<close>. \<^verbatim>\<open>calcPriority\<close> reads only
  \<^verbatim>\<open>impressions\<close> and \<^verbatim>\<open>visitRate\<close> of its argument.
\<close>

record item =
  impressions :: rat
  visitRate :: "rat option"

record row = item +
  ident :: string
  visits :: rat
  dma :: "string option"
  population :: "rat option"

record scored = row +
  reallocationPriority :: jsnum

section \<open>Standard calculations\<close>

definition calcPriority :: "'a item_scheme \<Rightarrow> rat \<Rightarrow> rat \<Rightarrow> jsnum" where
  "calcPriority it baseline totalImpressions =
     (let impShare = js_div (Num (impressions it)) (Num totalImpressions);
          perfRatio = (if 0 < baseline then js_div (to_number (visitRate it)) (Num baseline)
                       else Num 0)
      in js_round (js_sub (js_mul impShare (Num 1000)) (js_mul perfRatio (Num 100))))"

definition calcIndex :: "jsnum \<Rightarrow> rat \<Rightarrow> jsnum" where
  "calcIndex itemRate baselineRate =
     (if 0 < baselineRate then js_round (js_mul (js_div itemRate (Num baselineRate)) (Num 100))
      else Num 0)"

section \<open>The advertiser data store\<close>

record summary =
  totalImpressions :: rat
  totalVisits :: rat
  overallVisitRate :: rat

text \<open>An entry of \<^verbatim>\<open>advertiserData\<close>. The arrays and \<^verbatim>\<open>dmaZipCounts\<close> may be
  missing; the program reads them through \<^verbatim>\<open>||\<close>.\<close>

record advData =
  summary :: summary
  publishers :: "row list option"
  contexts :: "row list option"
  zipCodes :: "row list option"
  dmaZipCounts :: "(string \<rightharpoonup> rat) option"

section \<open>Analyze data: enrichment\<close>

text \<open>\<^verbatim>\<open>{ ...p, reallocationPriority: calcPriority(p, baseline, totalImps) }\<close>\<close>

definition enrichPublisher :: "rat \<Rightarrow> rat \<Rightarrow> row \<Rightarrow> scored" where
  "enrichPublisher baseline totalImps p =
     \<lparr>impressions = impressions p, visitRate = visitRate p, ident = ident p,
      visits = visits p, dma = dma p, population = population p,
      reallocationPriority = calcPriority p baseline totalImps\<rparr>"

text \<open>\<^verbatim>\<open>zipCodes.reduce((s, z) => s + (z.population || 0), 0)\<close>\<close>

definition totalPop :: "row list \<Rightarrow> rat" where
  "totalPop zs = foldl (\<lambda>s z. s + or_else (population z) 0) 0 zs"

text \<open>The local constants of the ZIP enrichment, in the order of the source.\<close>

definition zip_visitRate :: "row \<Rightarrow> rat" where
  "zip_visitRate z =
     (if 0 < impressions z then visits z / impressions z else or_else (visitRate z) 0)"

definition zipImpShare :: "rat \<Rightarrow> row \<Rightarrow> jsnum" where
  "zipImpShare totalImps z = js_div (Num (impressions z)) (Num totalImps)"

definition zipPopShare :: "rat \<Rightarrow> row \<Rightarrow> rat" where
  "zipPopShare tp z = (if 0 < tp then or_else (population z) 0 / tp else 0)"

definition popWeightedIdx :: "rat \<Rightarrow> rat \<Rightarrow> row \<Rightarrow> jsnum" where
  "popWeightedIdx totalImps tp z =
     (if 0 < zipPopShare tp z
      then js_round (js_mul (js_div (zipImpShare totalImps z) (Num (zipPopShare tp z))) (Num 100))
      else Num 0)"

definition perfIdx :: "rat \<Rightarrow> row \<Rightarrow> jsnum" where
  "perfIdx baseline z = calcIndex (Num (zip_visitRate z)) baseline"

definition zip_priority :: "rat \<Rightarrow> rat \<Rightarrow> rat \<Rightarrow> row \<Rightarrow> jsnum" where
  "zip_priority baseline totalImps tp z =
     (if js_gt (popWeightedIdx totalImps tp z) (Num 0)
      then js_sub (popWeightedIdx totalImps tp z) (perfIdx baseline z)
      else calcPriority \<lparr>impressions = impressions z, visitRate = Some (zip_visitRate z)\<rparr>
             baseline totalImps)"

text \<open>\<^verbatim>\<open>{ ...z, visitRate, reallocationPriority: ... }\<close>\<close>

definition enrichZip :: "rat \<Rightarrow> rat \<Rightarrow> rat \<Rightarrow> row \<Rightarrow> scored" where
  "enrichZip baseline totalImps tp z =
     \<lparr>impressions = impressions z, visitRate = Some (zip_visitRate z), ident = ident z,
      visits = visits z, dma = dma z, population = population z,
      reallocationPriority = zip_priority baseline totalImps tp z\<rparr>"

section \<open>Analyze data: recommendations\<close>

text \<open>
  \<^verbatim>\<open>[...xs].sort((a, b) => b.reallocationPriority - a.reallocationPriority)\<close>.
  \<^verbatim>\<open>Array.prototype.sort\<close> is stable: \<open>a\<close> stays before \<open>b\<close> unless the comparator
  is positive. The model is the stable insertion sort, which is the result the
  language fixes whenever the comparator is consistent, that is, whenever the
  priorities are finite; with a \<^verbatim>\<open>NaN\<close> comparison the language leaves the order to
  the implementation. Only the sign of the comparator is read, and the difference of
  two doubles has the sign it has before rounding.
\<close>

definition byPriorityDesc :: "scored \<Rightarrow> scored \<Rightarrow> jsnum" where
  "byPriorityDesc a b = js_sub (reallocationPriority b) (reallocationPriority a)"

fun insort_cmp :: "('a \<Rightarrow> 'a \<Rightarrow> jsnum) \<Rightarrow> 'a \<Rightarrow> 'a list \<Rightarrow> 'a list" where
  "insort_cmp cmp x [] = [x]"
| "insort_cmp cmp x (y # ys) =
     (if js_gt (cmp x y) (Num 0) then y # insort_cmp cmp x ys else x # y # ys)"

definition sort_cmp :: "('a \<Rightarrow> 'a \<Rightarrow> jsnum) \<Rightarrow> 'a list \<Rightarrow> 'a list" where
  "sort_cmp cmp xs = foldr (insort_cmp cmp) xs []"

text \<open>
  \<^verbatim>\<open>!z.dma || (dmaZipCounts[z.dma] || 999) > 5\<close>: a missing or empty \<^verbatim>\<open>dma\<close> is falsy.
  \<^verbatim>\<open>dmaZipCounts\<close> is an object literal, so a name it does not hold itself is looked up
  in \<^verbatim>\<open>Object.prototype\<close>: for the names below the lookup gives a function or an
  object, which is truthy and compares as \<^verbatim>\<open>NaN\<close>, and the guard is false. An object
  literal cannot hold \<^verbatim>\<open>__proto__\<close> itself.
\<close>

definition objectPrototypeNames :: "string list" where
  "objectPrototypeNames =
     [''constructor'', ''__defineGetter__'', ''__defineSetter__'', ''hasOwnProperty'',
      ''__lookupGetter__'', ''__lookupSetter__'', ''isPrototypeOf'',
      ''propertyIsEnumerable'', ''toString'', ''valueOf'', ''__proto__'',
      ''toLocaleString'']"

definition dmaGuard :: "(string \<rightharpoonup> rat) \<Rightarrow> scored \<Rightarrow> bool" where
  "dmaGuard counts z =
     (case dma z of None \<Rightarrow> True
      | Some d \<Rightarrow>
          d = [] \<or>
          (if d = ''__proto__'' then False
           else case counts d of
                  Some c \<Rightarrow> 5 < (if c = 0 then 999 else c)
                | None \<Rightarrow> d \<notin> set objectPrototypeNames))"

definition consPubs :: "scored list \<Rightarrow> scored list" where
  "consPubs sortedPubs =
     take 5 (filter (\<lambda>p. js_gt (reallocationPriority p) (Num 0) \<and> 0 < visits p) sortedPubs)"

definition aggPubs :: "scored list \<Rightarrow> scored list" where
  "aggPubs sortedPubs =
     take 8 (filter (\<lambda>p. js_gt (reallocationPriority p) (Num (- 20))) sortedPubs)"

definition consZips :: "(string \<rightharpoonup> rat) \<Rightarrow> scored list \<Rightarrow> scored list" where
  "consZips counts sortedZips =
     take 5 (filter (\<lambda>z. js_gt (reallocationPriority z) (Num 0) \<and> 0 < visits z
                          \<and> dmaGuard counts z) sortedZips)"

definition aggZips :: "(string \<rightharpoonup> rat) \<Rightarrow> scored list \<Rightarrow> scored list" where
  "aggZips counts sortedZips =
     take 10 (filter (\<lambda>z. js_gt (reallocationPriority z) (Num (- 50))
                           \<and> dmaGuard counts z) sortedZips)"

text \<open>\<^verbatim>\<open>calcProj\<close> returns \<^verbatim>\<open>{ newRate, improvement, excImps }\<close>; the caller adds
  \<^verbatim>\<open>count\<close> and \<^verbatim>\<open>items\<close>.\<close>

record projection =
  newRate :: jsnum
  improvement :: jsnum
  excImps :: rat

record recommendation = projection +
  count :: nat
  items :: "scored list"

record tiers =
  conservative :: recommendation
  aggressive :: recommendation

definition excVisits :: "scored list \<Rightarrow> rat" where
  "excVisits its = foldl (\<lambda>s i. s + visits i) 0 its"

definition calcProj :: "summary \<Rightarrow> scored list \<Rightarrow> projection" where
  "calcProj sm its =
     (let excImps = foldl (\<lambda>s i. s + impressions i) 0 its;
          excVisits = excVisits its;
          newRate = js_div (Num (totalVisits sm - excVisits))
                           (Num (totalImpressions sm - excImps))
      in \<lparr>newRate = newRate,
          improvement =
            js_mul (js_sub (js_div newRate (Num (overallVisitRate sm))) (Num 1)) (Num 100),
          excImps = excImps\<rparr>)"

definition recommend :: "summary \<Rightarrow> scored list \<Rightarrow> recommendation" where
  "recommend sm its =
     \<lparr>newRate = newRate (calcProj sm its), improvement = improvement (calcProj sm its),
      excImps = excImps (calcProj sm its), count = length its, items = its\<rparr>"

text \<open>The part of the object given to \<^verbatim>\<open>setData\<close> that the recommendations live in.
  \<^verbatim>\<open>pubRecommendations\<close> is \<^verbatim>\<open>null\<close> when there is no publisher row.\<close>

record analysis =
  out_publishers :: "scored list"
  out_zipCodes :: "scored list"
  pubRecommendations :: "tiers option"
  geoRecommendations :: tiers

text \<open>\<^verbatim>\<open>advData.publishers || advData.contexts || []\<close>, \<^verbatim>\<open>advData.zipCodes || []\<close>
  and \<^verbatim>\<open>advData.dmaZipCounts || {}\<close>. An empty array is truthy.\<close>

definition publisherRows :: "advData \<Rightarrow> row list" where
  "publisherRows advData =
     (case publishers advData of Some ps \<Rightarrow> ps
      | None \<Rightarrow> (case contexts advData of Some cs \<Rightarrow> cs | None \<Rightarrow> []))"

definition zipRows :: "advData \<Rightarrow> row list" where
  "zipRows advData = (case zipCodes advData of Some zs \<Rightarrow> zs | None \<Rightarrow> [])"

definition zipCounts :: "advData \<Rightarrow> (string \<rightharpoonup> rat)" where
  "zipCounts advData = (case dmaZipCounts advData of Some c \<Rightarrow> c | None \<Rightarrow> Map.empty)"

text \<open>The recommendations, from the enriched rows: the rows are sorted, filtered and
  cut, and \<^verbatim>\<open>calcProj\<close> is applied to each selection.\<close>

definition pubTiers :: "summary \<Rightarrow> scored list \<Rightarrow> tiers option" where
  "pubTiers sm pubs =
     (let sortedPubs = sort_cmp byPriorityDesc pubs
      in if 0 < length pubs
         then Some \<lparr>conservative = recommend sm (consPubs sortedPubs),
                    aggressive = recommend sm (aggPubs sortedPubs)\<rparr>
         else None)"

definition geoTiers :: "summary \<Rightarrow> (string \<rightharpoonup> rat) \<Rightarrow> scored list \<Rightarrow> tiers" where
  "geoTiers sm counts zips =
     (let sortedZips = sort_cmp byPriorityDesc zips
      in \<lparr>conservative = recommend sm (consZips counts sortedZips),
          aggressive = recommend sm (aggZips counts sortedZips)\<rparr>)"

text \<open>\<^verbatim>\<open>analyzeData\<close>, from the point where the entry of the selected advertiser has
  been found; without a selected advertiser or without an entry the function returns
  before it computes anything.\<close>

definition analyzeData :: "advData \<Rightarrow> analysis" where
  "analyzeData advData =
     (let baseline = overallVisitRate (summary advData);
          totalImps = totalImpressions (summary advData);
          pubs = map (enrichPublisher baseline totalImps) (publisherRows advData);
          zips = map (enrichZip baseline totalImps (totalPop (zipRows advData)))
                   (zipRows advData);
          counts = zipCounts advData
      in \<lparr>out_publishers = pubs,
          out_zipCodes = zips,
          pubRecommendations = pubTiers (summary advData) pubs,
          geoRecommendations = geoTiers (summary advData) counts zips\<rparr>)"

text \<open>Priorities do not increase from \<open>a\<close> to \<open>b\<close>.\<close>

definition prioDesc :: "scored \<Rightarrow> scored \<Rightarrow> bool" where
  "prioDesc a b = js_le (reallocationPriority b) (reallocationPriority a)"

section \<open>Double precision\<close>

text \<open>
  The values a JavaScript operation returns are binary64 numbers: the exact result,
  rounded to the nearest number with a 53-bit significand and an exponent between -1074
  and 971, a tie going to the even significand, and to an infinity from \<open>2 ^ 1024\<close> on.
  \<open>ilog2 x\<close> is the exponent \<open>k\<close> with \<open>2 ^ k \<le> x < 2 ^ (k + 1)\<close>, for \<open>x > 0\<close>.
\<close>

definition ilog2 :: "rat \<Rightarrow> int" where
  "ilog2 x =
     (let (p, q) = quotient_of x; d = bitlen p - bitlen q
      in if 2 powi d \<le> x then d else d - 1)"

definition round_even :: "rat \<Rightarrow> int" where
  "round_even m =
     (let f = \<lfloor>m\<rfloor>; d = m - of_int f
      in if d < 1 / 2 then f else if 1 / 2 < d then f + 1 else if even f then f else f + 1)"

definition round64 :: "rat \<Rightarrow> rat" where
  "round64 x =
     (if x = 0 then 0
      else let e = max (ilog2 \<bar>x\<bar> - 52) (- 1074)
           in of_int (round_even (x / 2 powi e)) * 2 powi e)"

definition fl :: "rat \<Rightarrow> jsnum" where
  "fl x =
     (let y = round64 x
      in if 2 ^ 1024 \<le> \<bar>y\<bar> then (if 0 < x then PosInf else NegInf) else Num y)"

text \<open>An operation on doubles is the exact operation followed by the rounding; the
  non-finite values pass unchanged.\<close>

definition rnd :: "jsnum \<Rightarrow> jsnum" where
  "rnd v = (case v of Num a \<Rightarrow> fl a | _ \<Rightarrow> v)"

definition add64 :: "jsnum \<Rightarrow> jsnum \<Rightarrow> jsnum" where
  "add64 a b = rnd (js_add a b)"

definition sub64 :: "jsnum \<Rightarrow> jsnum \<Rightarrow> jsnum" where
  "sub64 a b = rnd (js_sub a b)"

definition mul64 :: "jsnum \<Rightarrow> jsnum \<Rightarrow> jsnum" where
  "mul64 a b = rnd (js_mul a b)"

definition div64 :: "jsnum \<Rightarrow> jsnum \<Rightarrow> jsnum" where
  "div64 a b = rnd (js_div a b)"

text \<open>
  A number of the data is written in decimal in the source and is read as the nearest
  double (as 0 when it is nearer to 0 than to any other double, and then without its
  sign); a property that is missing is \<^verbatim>\<open>undefined\<close>, which is \<^verbatim>\<open>NaN\<close> in arithmetic
  and, like 0, gives way to the other side of \<^verbatim>\<open>||\<close>.
\<close>

definition lit :: "rat \<Rightarrow> jsnum" where
  "lit x = fl x"

definition lit_number :: "rat option \<Rightarrow> jsnum" where
  "lit_number v = (case v of None \<Rightarrow> NaN | Some a \<Rightarrow> lit a)"

definition lit_or_zero :: "rat option \<Rightarrow> jsnum" where
  "lit_or_zero v = (case v of None \<Rightarrow> Num 0 | Some a \<Rightarrow> lit a)"

text \<open>
  The standard calculations over doubles. \<^verbatim>\<open>Math.round\<close> is exact on a double.
  \<open>priority64\<close> is the body of \<^verbatim>\<open>calcPriority\<close> on the two properties it reads.
\<close>

definition priority64 :: "jsnum \<Rightarrow> jsnum \<Rightarrow> jsnum \<Rightarrow> jsnum \<Rightarrow> jsnum" where
  "priority64 imps rate baseline totalImps =
     (let impShare = div64 imps totalImps;
          perfRatio = (if js_gt baseline (Num 0) then div64 rate baseline else Num 0)
      in js_round (sub64 (mul64 impShare (Num 1000)) (mul64 perfRatio (Num 100))))"

definition calcPriority64 :: "'a item_scheme \<Rightarrow> rat \<Rightarrow> rat \<Rightarrow> jsnum" where
  "calcPriority64 it baseline totalImps =
     priority64 (lit (impressions it)) (lit_number (visitRate it)) (lit baseline)
       (lit totalImps)"


text \<open>The ZIP enrichment over doubles; the call
  \<^verbatim>\<open>calcPriority({ impressions: z.impressions, visitRate }, baseline, totalImps)\<close> passes
  the computed visit rate. \<open>tp\<close> is the total population, \<open>totalPop64\<close> of the rows.\<close>

definition totalPop64 :: "row list \<Rightarrow> jsnum" where
  "totalPop64 zs = foldl (\<lambda>s z. add64 s (lit_or_zero (population z))) (Num 0) zs"







text \<open>\<^verbatim>\<open>calcProj\<close> over doubles.\<close>

record projection64 =
  newRate64 :: jsnum
  improvement64 :: jsnum
  excImps64 :: jsnum

definition sumImps64 :: "'a row_scheme list \<Rightarrow> jsnum" where
  "sumImps64 its = foldl (\<lambda>s i. add64 s (lit (impressions i))) (Num 0) its"

definition sumVisits64 :: "'a row_scheme list \<Rightarrow> jsnum" where
  "sumVisits64 its = foldl (\<lambda>s i. add64 s (lit (visits i))) (Num 0) its"

definition calcProj64 :: "summary \<Rightarrow> 'a row_scheme list \<Rightarrow> projection64" where
  "calcProj64 sm its =
     (let excImps = sumImps64 its;
          excVisits = sumVisits64 its;
          newRate = div64 (sub64 (lit (totalVisits sm)) excVisits)
                          (sub64 (lit (totalImpressions sm)) excImps)
      in \<lparr>newRate64 = newRate,
          improvement64 =
            mul64 (sub64 (div64 newRate (lit (overallVisitRate sm))) (Num 1)) (Num 100),
          excImps64 = excImps\<rparr>)"

section \<open>Data of the store\<close>

text \<open>The object literals of the rows.\<close>

definition publisherRow :: "string \<Rightarrow> rat \<Rightarrow> rat \<Rightarrow> rat \<Rightarrow> row" where
  "publisherRow c i v r =
     \<lparr>impressions = i, visitRate = Some r, ident = c, visits = v, dma = None,
      population = None\<rparr>"

definition zipRow :: "string \<Rightarrow> string \<Rightarrow> rat \<Rightarrow> rat \<Rightarrow> rat \<Rightarrow> row" where
  "zipRow z d p i v =
     \<lparr>impressions = i, visitRate = None, ident = z, visits = v, dma = Some d,
      population = Some p\<rparr>"

text \<open>Advertiser 45143 (Noodles & Company) of \<^verbatim>\<open>advertiserData\<close>, as it stands in the
  source.\<close>

definition noodles :: advData where
  "noodles =
     \<lparr>summary = \<lparr>totalImpressions = 7624633, totalVisits = 30157,
                 overallVisitRate = 395 / 100000\<rparr>,
      publishers = Some
        [publisherRow ''HBO Max'' 1974033 922 (467 / 1000000),
         publisherRow ''NBC'' 1872428 938 (501 / 1000000),
         publisherRow ''Paramount Streaming - Comedy'' 1274774 633 (497 / 1000000),
         publisherRow ''Paramount Streaming - Drama'' 1185666 576 (486 / 1000000),
         publisherRow ''Paramount Streaming - News'' 737080 452 (613 / 1000000),
         publisherRow ''Paramount Streaming - Action-Thriller'' 640642 325 (507 / 1000000),
         publisherRow ''Paramount Streaming - Reality'' 502100 273 (544 / 1000000),
         publisherRow ''Tubi Entertainment'' 475965 188 (395 / 1000000),
         publisherRow ''TLC'' 324575 93 (287 / 1000000),
         publisherRow ''Paramount Streaming - Sci-Fi'' 321660 190 (591 / 1000000),
         publisherRow ''Paramount Streaming - Documentary'' 246090 168 (683 / 1000000),
         publisherRow ''Paramount Streaming - Sports'' 221269 198 (895 / 1000000),
         publisherRow ''Discovery Channel'' 138923 110 (792 / 1000000)],
      contexts = None,
      zipCodes = Some
        [zipRow ''80208'' ''DENVER'' 26592 263564 1892,
         zipRow ''55440'' ''MINNEAPOLIS - ST. PAUL'' 8996 231766 1583,
         zipRow ''60666'' ''CHICAGO'' 9926 217402 474,
         zipRow ''20068'' ''WASHINGTON, DC'' 2207 171308 267,
         zipRow ''50981'' ''DES MOINES - AMES'' 2026 142151 0,
         zipRow ''21215'' ''BALTIMORE'' 58448 135857 41,
         zipRow ''80001'' ''DENVER'' 22 131503 798,
         zipRow ''21203'' ''BALTIMORE'' 21010 114418 6,
         zipRow ''20147'' ''WASHINGTON, DC'' 64197 110484 235,
         zipRow ''60126'' ''CHICAGO'' 48410 107495 226,
         zipRow ''80040'' ''DENVER'' 25323 93129 483,
         zipRow ''60701'' ''CHICAGO'' 9926 93061 61,
         zipRow ''80160'' ''DENVER'' 33603 90229 591,
         zipRow ''60056'' ''CHICAGO'' 55250 81795 178,
         zipRow ''80523'' ''DENVER'' 37076 72863 377],
      dmaZipCounts = Some (map_of
        [(''CHICAGO'', 362), (''DENVER'', 237), (''MINNEAPOLIS - ST. PAUL'', 247),
         (''WASHINGTON, DC'', 294), (''BALTIMORE'', 117), (''DES MOINES - AMES'', 51)])\<rparr>"

text \<open>A store with two ZIP rows, the second without impressions.\<close>

definition two_zips :: advData where
  "two_zips =
     \<lparr>summary = \<lparr>totalImpressions = 1000, totalVisits = 50, overallVisitRate = 1 / 20\<rparr>,
      publishers = None, contexts = None,
      zipCodes = Some
        [\<lparr>impressions = 400, visitRate = None, ident = ''80208'', visits = 10,
          dma = None, population = None\<rparr>,
         \<lparr>impressions = 0, visitRate = None, ident = ''50981'', visits = 0,
          dma = None, population = None\<rparr>],
      dmaZipCounts = None\<rparr>"

text \<open>Advertiser 7389 (Space Coast Tourism) of \<^verbatim>\<open>advertiserData\<close>, as it stands in the
  source: its \<^verbatim>\<open>publishers\<close> array is empty.\<close>

definition space_coast :: advData where
  "space_coast =
     \<lparr>summary = \<lparr>totalImpressions = 147142878, totalVisits = 5702339,
                 overallVisitRate = 3875 / 100000\<rparr>,
      publishers = Some [],
      contexts = None,
      zipCodes = Some
        [zipRow ''10123'' ''NEW YORK'' 0 2831300 115624,
         zipRow ''30302'' ''ATLANTA'' 28077 1267043 97007,
         zipRow ''33102'' ''MIAMI - FT. LAUDERDALE'' 0 1229889 187226,
         zipRow ''32811'' ''ORLANDO - DAYTONA BCH'' 41246 1168239 534750,
         zipRow ''32802'' ''ORLANDO - DAYTONA BCH'' 12174 1145481 245380,
         zipRow ''20149'' ''WASHINGTON, DC'' 48110 1060622 36507,
         zipRow ''60666'' ''CHICAGO'' 9926 1047066 29447,
         zipRow ''20068'' ''WASHINGTON, DC'' 2207 885056 13407,
         zipRow ''19099'' ''PHILADELPHIA'' 13603 825804 16361,
         zipRow ''33606'' ''TAMPA - ST. PETE'' 19466 630796 78338,
         zipRow ''34758'' ''ORLANDO - DAYTONA BCH'' 41094 447993 195119,
         zipRow ''32920'' ''ORLANDO - DAYTONA BCH'' 10181 422592 178407],
      dmaZipCounts = Some (map_of
        [(''ORLANDO - DAYTONA BCH'', 145), (''MIAMI - FT. LAUDERDALE'', 89),
         (''NEW YORK'', 67), (''TAMPA - ST. PETE'', 54), (''ATLANTA'', 48)])\<rparr>"

section \<open>Last-touch attribution\<close>

text \<open>
  The attribution documents (\<^verbatim>\<open>API_DOCUMENTATION.md\<close>, \<^verbatim>\<open>DATA_DICTIONARY.md\<close>) give the
  de-duplication as a window query:
  \<^verbatim>\<open>ROW_NUMBER() OVER (PARTITION BY DEVICE_ID_QU, DRIVEBYDATE ORDER BY IMP_TIMESTAMP DESC)\<close>
  for store visits and
  \<^verbatim>\<open>ROW_NUMBER() OVER (PARTITION BY IMP_MAID, SITE_VISIT_ID ORDER BY IMP_DATE DESC)\<close>
  for web events, keeping the rows with \<^verbatim>\<open>rn = 1\<close>.

  A flag row carries the device, the episode (the visit date of a store visit, the
  site-visit id of a web visit) and the impression time the window orders by. Columns
  are taken as not null.
\<close>

datatype episode = StoreVisit int | SiteVisit string

text \<open>Modelled from the spec: the identifier of the source row (\<open>row_id\<close>) of a
  ConversionFlag. The tables of the data dictionary list no such column, and the
  window queries do not read one.\<close>

record conversion_flag =
  row_id :: string
  device :: string
  episode :: episode
  imp_time :: int

text \<open>\<^verbatim>\<open>PARTITION BY\<close>: the rows of one key, and the keys in order of first appearance.\<close>

definition episode_key :: "conversion_flag \<Rightarrow> string \<times> episode" where
  "episode_key f = (device f, episode f)"

definition partition_of :: "('r \<Rightarrow> 'k) \<Rightarrow> 'k \<Rightarrow> 'r list \<Rightarrow> 'r list" where
  "partition_of key k rows = filter (\<lambda>r. key r = k) rows"

text \<open>
  \<^verbatim>\<open>ORDER BY ... DESC\<close> numbers a partition from the latest row on. Rows with the same
  time are peers: the query does not say which of them comes first, the engine
  decides. The rows that can get number 1 are the peers at the latest time.
\<close>

definition top_peers :: "('r \<Rightarrow> int) \<Rightarrow> 'r list \<Rightarrow> 'r list" where
  "top_peers ts part = filter (\<lambda>r. list_all (\<lambda>r'. ts r' \<le> ts r) part) part"

text \<open>The engine's decision is the parameter \<open>pick\<close>: the position, among the peers at
  the latest time, of the row that gets number 1.\<close>

definition rn1 :: "('r list \<Rightarrow> nat) \<Rightarrow> ('r \<Rightarrow> int) \<Rightarrow> 'r list \<Rightarrow> 'r option" where
  "rn1 pick ts part =
     (let peers = top_peers ts part
      in if peers = [] then None else Some (peers ! (pick peers mod length peers)))"

definition last_touch ::
  "('r \<Rightarrow> 'k) \<Rightarrow> ('r \<Rightarrow> int) \<Rightarrow> ('r list \<Rightarrow> nat) \<Rightarrow> 'r list \<Rightarrow> 'r list" where
  "last_touch key ts pick rows =
     List.map_filter (\<lambda>k. rn1 pick ts (partition_of key k rows)) (remdups (map key rows))"

definition dedupe :: "(conversion_flag list \<Rightarrow> nat) \<Rightarrow> conversion_flag list \<Rightarrow> conversion_flag list"
  where "dedupe pick flags = last_touch episode_key imp_time pick flags"

text \<open>Two engines: one numbers the first peer 1, the other the second.\<close>

definition pick_first :: "conversion_flag list \<Rightarrow> nat" where
  "pick_first peers = 0"

definition pick_second :: "conversion_flag list \<Rightarrow> nat" where
  "pick_second peers = 1"

text \<open>Three impressions before one store visit and two before a web visit.\<close>

definition five_flags :: "conversion_flag list" where
  "five_flags =
     [\<lparr>row_id = ''r1'', device = ''X'', episode = StoreVisit 20, imp_time = 100\<rparr>,
      \<lparr>row_id = ''r2'', device = ''Y'', episode = SiteVisit ''v7'', imp_time = 130\<rparr>,
      \<lparr>row_id = ''r3'', device = ''X'', episode = StoreVisit 20, imp_time = 300\<rparr>,
      \<lparr>row_id = ''r4'', device = ''X'', episode = StoreVisit 20, imp_time = 200\<rparr>,
      \<lparr>row_id = ''r5'', device = ''Y'', episode = SiteVisit ''v7'', imp_time = 110\<rparr>]"

text \<open>Two impressions at the same time before one store visit.\<close>

definition tied_flags :: "conversion_flag list" where
  "tied_flags =
     [\<lparr>row_id = ''a'', device = ''X'', episode = StoreVisit 20, imp_time = 100\<rparr>,
      \<lparr>row_id = ''b'', device = ''X'', episode = StoreVisit 20, imp_time = 100\<rparr>]"

section \<open>Properties of the standard calculations\<close>





section \<open>Projected improvement\<close>

lemma foldl_add_sum_list:
  "foldl (\<lambda>s i. s + f i) a xs = a + sum_list (map f xs)" for a :: rat
  by (induction xs arbitrary: a) (simp_all add: add.assoc)

lemma excImps_sum: "excImps (calcProj sm its) = sum_list (map impressions its)"
  by (simp add: calcProj_def Let_def foldl_add_sum_list)

lemma excVisits_sum: "excVisits its = sum_list (map visits its)"
  by (simp add: excVisits_def foldl_add_sum_list)

lemma newRate_eq:
  "newRate (calcProj sm its)
     = js_div (Num (totalVisits sm - sum_list (map visits its)))
              (Num (totalImpressions sm - sum_list (map impressions its)))"
  by (simp add: calcProj_def Let_def foldl_add_sum_list excVisits_sum)

lemma improvement_eq:
  "improvement (calcProj sm its)
     = js_mul (js_sub (js_div (newRate (calcProj sm its)) (Num (overallVisitRate sm))) (Num 1))
              (Num 100)"
  by (simp add: calcProj_def Let_def)

lemma js_div_zero_not_finite: "\<not> is_finite (js_div (Num a) (Num 0))"
  by (simp add: is_finite_def)

lemma improvement_not_finite:
  "\<not> is_finite x \<Longrightarrow> \<not> is_finite (js_mul (js_sub (js_div x (Num b)) (Num 1)) (Num 100))"
  by (cases x) (simp_all add: is_finite_def js_sub_def)

text \<open>
  C10. \<^verbatim>\<open>calcProj\<close> divides by \<^verbatim>\<open>totalImps - excImps\<close> without a guard: when the
  selected rows' impressions add up to the advertiser's whole impression total, the
  new rate and the improvement percentage are non-finite values (\<^verbatim>\<open>NaN\<close> or an
  infinity); the function still returns its record, no error is raised.
\<close>

theorem calcProj_unguarded_division:
  assumes "sum_list (map impressions its) = totalImpressions sm"
  shows "\<not> is_finite (newRate (recommend sm its))
         \<and> \<not> is_finite (improvement (recommend sm its))"
proof -
  have "newRate (calcProj sm its)
          = js_div (Num (totalVisits sm - sum_list (map visits its))) (Num 0)"
    by (simp add: newRate_eq assms del: js_div.simps)
  then have n: "\<not> is_finite (newRate (calcProj sm its))"
    by (simp only: js_div_zero_not_finite not_False_eq_True)
  then have "\<not> is_finite (improvement (calcProj sm its))"
    by (simp add: improvement_eq improvement_not_finite)
  with n show ?thesis by (simp add: recommend_def)
qed

text \<open>The single row holds all 1000 impressions and 2 of the 50 visits: the new rate
  is 48 / 0.\<close>

theorem calcProj_unguarded_division_witness:
  "newRate (recommend \<lparr>totalImpressions = 1000, totalVisits = 50, overallVisitRate = 1 / 20\<rparr>
      [\<lparr>impressions = 1000, visitRate = Some (1 / 500), ident = ''NBC'', visits = 2,
        dma = None, population = None, reallocationPriority = Num 960\<rparr>]) = PosInf
   \<and> \<not> is_finite (improvement
      (recommend \<lparr>totalImpressions = 1000, totalVisits = 50, overallVisitRate = 1 / 20\<rparr>
      [\<lparr>impressions = 1000, visitRate = Some (1 / 500), ident = ''NBC'', visits = 2,
        dma = None, population = None, reallocationPriority = Num 960\<rparr>]))"
  using calcProj_unguarded_division
    [of "[\<lparr>impressions = 1000, visitRate = Some (1 / 500), ident = ''NBC'', visits = 2,
          dma = None, population = None, reallocationPriority = Num 960\<rparr>]"
        "\<lparr>totalImpressions = 1000, totalVisits = 50, overallVisitRate = 1 / 20\<rparr>"]
  by (simp add: recommend_def newRate_eq)

section \<open>Visit rate of a ZIP row\<close>

lemma out_zipCodes_eq:
  "out_zipCodes (analyzeData d)
     = map (enrichZip (overallVisitRate (summary d)) (totalImpressions (summary d))
              (totalPop (zipRows d))) (zipRows d)"
  by (simp add: analyzeData_def Let_def)

lemma out_publishers_eq:
  "out_publishers (analyzeData d)
     = map (enrichPublisher (overallVisitRate (summary d)) (totalImpressions (summary d)))
           (publisherRows d)"
  by (simp add: analyzeData_def Let_def)

text \<open>
  C7, as the code has it. A ZIP row without impressions is not left out: the
  enrichment is a \<^verbatim>\<open>map\<close> and emits one row for each input row. The visit rate
  of an emitted row is \<open>visits / impressions\<close> when the impressions are positive and
  the row's own \<^verbatim>\<open>visitRate\<close> (0 when it is missing or 0) otherwise, so it is never the
  result of a division by zero and is always a finite number.
\<close>

theorem zip_visitRate_guarded:
  "length (out_zipCodes (analyzeData d)) = length (zipRows d)
   \<and> (\<forall>y \<in> set (out_zipCodes (analyzeData d)). is_finite (to_number (visitRate y)))
   \<and> (0 < impressions z \<longrightarrow>
        visitRate (enrichZip b T tp z) = Some (visits z / impressions z))
   \<and> (\<not> 0 < impressions z \<longrightarrow>
        visitRate (enrichZip b T tp z) = Some (or_else (visitRate z) 0))"
  by (auto simp: out_zipCodes_eq enrichZip_def zip_visitRate_def is_finite_def to_number_def)

theorem zip_visitRate_guarded_witness:
  "map visitRate (out_zipCodes (analyzeData two_zips)) = [Some (1 / 40), Some 0]
   \<and> is_finite (to_number (visitRate (out_zipCodes (analyzeData two_zips) ! 1)))"
proof -
  let ?z1 = "\<lparr>impressions = 400, visitRate = None, ident = ''80208'', visits = 10,
          dma = None, population = None\<rparr>"
  let ?z2 = "\<lparr>impressions = 0, visitRate = None, ident = ''50981'', visits = 0,
          dma = None, population = None\<rparr>"
  have a: "visitRate (enrichZip (1 / 20) 1000 0 ?z1) = Some (1 / 40)"
    using zip_visitRate_guarded [of two_zips ?z1 "1 / 20" 1000 0] by simp
  have b: "visitRate (enrichZip (1 / 20) 1000 0 ?z2) = Some 0"
    using zip_visitRate_guarded [of two_zips ?z2 "1 / 20" 1000 0] by (simp add: or_else_def)
  have m: "map visitRate (out_zipCodes (analyzeData two_zips)) = [Some (1 / 40), Some 0]"
    using a b by (simp add: out_zipCodes_eq two_zips_def zipRows_def totalPop_def or_else_def)
  have "out_zipCodes (analyzeData two_zips) ! 1 \<in> set (out_zipCodes (analyzeData two_zips))"
    by (simp add: out_zipCodes_eq two_zips_def zipRows_def)
  then have "is_finite (to_number (visitRate (out_zipCodes (analyzeData two_zips) ! 1)))"
    using zip_visitRate_guarded [of two_zips ?z1 "1 / 20" 1000 0] by blast
  with m show ?thesis by simp
qed

text \<open>C7 as stated fails: the row without impressions is emitted.\<close>

theorem zero_impressions_row_emitted:
  "map impressions (out_zipCodes (analyzeData two_zips)) = [400, 0]"
  by (simp add: out_zipCodes_eq two_zips_def zipRows_def enrichZip_def)

section \<open>Rounding to a double\<close>

lemma powi_int_nat: "0 \<le> a \<Longrightarrow> (2::rat) powi a = 2 ^ nat a"
  by (simp add: power_int_def)

lemma bitlen_bracket:
  assumes "0 < p"
  shows "2 powi (bitlen p - 1) \<le> (of_int p :: rat) \<and> (of_int p :: rat) < 2 powi (bitlen p)"
proof -
  have b: "2 ^ nat (bitlen p - 1) \<le> p \<and> p < 2 ^ nat (bitlen p)"
    using assms by (rule bitlen_bounds)
  have a1: "1 \<le> bitlen p"
    using assms by (simp add: bitlen_alt_def)
  have "(of_int (2 ^ nat (bitlen p - 1)) :: rat) \<le> of_int p"
    using b by (simp only: of_int_le_iff)
  moreover have "(of_int p :: rat) < of_int (2 ^ nat (bitlen p))"
    using b by (simp only: of_int_less_iff)
  ultimately show ?thesis
    using a1 by (simp add: powi_int_nat)
qed

lemma ilog2_bracket:
  assumes "0 < x"
  shows "2 powi (ilog2 x) \<le> x \<and> x < 2 powi (ilog2 x + 1)"
proof -
  obtain p q where pq: "quotient_of x = (p, q)" by (cases "quotient_of x")
  then have q: "0 < q" and x: "x = of_int p / of_int q"
    by (simp_all add: quotient_of_denom_pos quotient_of_div)
  with assms have p: "0 < p"
    by (simp add: zero_less_divide_iff)
  let ?a = "bitlen p" and ?c = "bitlen q"
  have pb: "2 powi (?a - 1) \<le> (of_int p :: rat)" "(of_int p :: rat) < 2 powi ?a"
    using bitlen_bracket [OF p] by simp_all
  have qb: "2 powi (?c - 1) \<le> (of_int q :: rat)" "(of_int q :: rat) < 2 powi ?c"
    using bitlen_bracket [OF q] by simp_all
  have pos: "(0::rat) < 2 powi (?c - 1)" "(0::rat) \<le> of_int p" "(0::rat) < of_int q"
    using p q by simp_all
  have "x < 2 powi ?a / 2 powi (?c - 1)"
    unfolding x using pos(2) pb(2) pos(1) qb(1) by (rule frac_less)
  also have "\<dots> = 2 powi (?a - ?c + 1)"
    by (simp add: power_int_diff [symmetric] algebra_simps)
  finally have up: "x < 2 powi (?a - ?c + 1)" .
  have "2 powi (?a - 1) / 2 powi ?c \<le> x"
    unfolding x using pos(2) pb(1) pos(3) less_imp_le [OF qb(2)] by (rule frac_le)
  moreover have "2 powi (?a - 1) / 2 powi ?c = (2::rat) powi (?a - ?c - 1)"
    by (simp add: power_int_diff [symmetric] algebra_simps)
  ultimately have lo: "2 powi (?a - ?c - 1) \<le> x" by simp
  show ?thesis
    using up lo pq by (auto simp: ilog2_def Let_def)
qed

lemma powi_le_mono: "a \<le> b \<Longrightarrow> (2::rat) powi a \<le> 2 powi b"
  by (rule power_int_increasing) simp_all

lemma ilog2_eqI:
  assumes "2 powi k \<le> x" and "x < 2 powi (k + 1)"
  shows "ilog2 x = k"
proof -
  have "(0::rat) < 2 powi k" by simp
  then have pos: "0 < x" using assms(1) by (rule less_le_trans)
  note b = ilog2_bracket [OF pos]
  have "\<not> ilog2 x < k"
  proof
    assume "ilog2 x < k"
    then have "(2::rat) powi (ilog2 x + 1) \<le> 2 powi k"
      by (intro powi_le_mono) simp
    with b assms show False by simp
  qed
  moreover have "\<not> k < ilog2 x"
  proof
    assume "k < ilog2 x"
    then have "(2::rat) powi (k + 1) \<le> 2 powi (ilog2 x)"
      by (intro powi_le_mono) simp
    with b assms show False by simp
  qed
  ultimately show ?thesis by simp
qed

lemma round_even_eqI:
  assumes "(of_int n - 1 / 2 < m \<and> m < of_int n + 1 / 2)
           \<or> (m = of_int n + 1 / 2 \<and> even n) \<or> (m = of_int n - 1 / 2 \<and> even n)"
  shows "round_even m = n"
proof -
  consider (a) "of_int n - 1 / 2 < m" "m < of_int n + 1 / 2"
    | (b) "m = of_int n + 1 / 2" "even n" | (c) "m = of_int n - 1 / 2" "even n"
    using assms by blast
  then show ?thesis
  proof cases
    case a
    show ?thesis
    proof (cases "of_int n \<le> m")
      case True
      with a have "\<lfloor>m\<rfloor> = n" by (simp add: floor_eq_iff)
      with a show ?thesis by (simp add: round_even_def Let_def)
    next
      case False
      with a have f: "\<lfloor>m\<rfloor> = n - 1" by (simp add: floor_eq_iff)
      with a show ?thesis by (simp add: round_even_def Let_def)
    qed
  next
    case b
    then have "\<lfloor>m\<rfloor> = n" by (simp add: floor_eq_iff)
    with b show ?thesis by (simp add: round_even_def Let_def)
  next
    case c
    then have "\<lfloor>m\<rfloor> = n - 1" by (simp add: floor_eq_iff)
    with c show ?thesis by (simp add: round_even_def Let_def)
  qed
qed

text \<open>The rounding of a given number, from its exponent \<open>k\<close> and its significand \<open>n\<close>.\<close>

lemma round64_eqI:
  assumes "2 powi k \<le> \<bar>x\<bar>" and "\<bar>x\<bar> < 2 powi (k + 1)"
    and "max (k - 52) (- 1074) = e"
    and "(of_int n - 1 / 2 < x / 2 powi e \<and> x / 2 powi e < of_int n + 1 / 2)
           \<or> (x / 2 powi e = of_int n + 1 / 2 \<and> even n)
           \<or> (x / 2 powi e = of_int n - 1 / 2 \<and> even n)"
    and "of_int n * 2 powi e = y"
  shows "round64 x = y"
proof -
  have "(0::rat) < 2 powi k" by simp
  then have "0 < \<bar>x\<bar>" using assms(1) by (rule less_le_trans)
  then have nz: "x \<noteq> 0" by simp
  have "ilog2 \<bar>x\<bar> = k" using assms(1,2) by (rule ilog2_eqI)
  moreover have "round_even (x / 2 powi e) = n" using assms(4) by (rule round_even_eqI)
  ultimately show ?thesis
    using nz assms(3,5) by (simp add: round64_def Let_def)
qed

lemma fl_eqI:
  assumes "2 powi k \<le> \<bar>x\<bar>" and "\<bar>x\<bar> < 2 powi (k + 1)"
    and "max (k - 52) (- 1074) = e"
    and "(of_int n - 1 / 2 < x / 2 powi e \<and> x / 2 powi e < of_int n + 1 / 2)
           \<or> (x / 2 powi e = of_int n + 1 / 2 \<and> even n)
           \<or> (x / 2 powi e = of_int n - 1 / 2 \<and> even n)"
    and "of_int n * 2 powi e = y"
    and "\<bar>y\<bar> < 2 ^ 1024"
  shows "fl x = Num y"
proof -
  have "round64 x = y" using assms(1-5) by (rule round64_eqI)
  then show ?thesis using assms(6) by (simp add: fl_def)
qed

lemma fl_zero: "fl 0 = Num 0"
  by (simp add: fl_def round64_def)

lemma add64_Num: "add64 (Num a) (Num b) = fl (a + b)"
  by (simp add: add64_def rnd_def)

lemma sub64_Num: "sub64 (Num a) (Num b) = fl (a - b)"
  by (simp add: sub64_def rnd_def js_sub_def)

lemma mul64_Num: "mul64 (Num a) (Num b) = fl (a * b)"
  by (simp add: mul64_def rnd_def)

lemma div64_Num: "b \<noteq> 0 \<Longrightarrow> div64 (Num a) (Num b) = fl (a / b)"
  by (simp add: div64_def rnd_def)

lemma add64_eqI: "fl (a + b) = Num y \<Longrightarrow> add64 (Num a) (Num b) = Num y"
  by (simp add: add64_Num)

lemma sub64_eqI: "fl (a - b) = Num y \<Longrightarrow> sub64 (Num a) (Num b) = Num y"
  by (simp add: sub64_Num)

lemma mul64_eqI: "fl (a * b) = Num y \<Longrightarrow> mul64 (Num a) (Num b) = Num y"
  by (simp add: mul64_Num)

lemma div64_eqI: "b \<noteq> 0 \<Longrightarrow> fl (a / b) = Num y \<Longrightarrow> div64 (Num a) (Num b) = Num y"
  by (simp add: div64_Num)

lemma js_round_eqI:
  assumes "of_int n \<le> v + 1 / 2" and "v + 1 / 2 < of_int n + 1" and "of_int n = y"
  shows "js_round (Num v) = Num y"
proof -
  have "\<lfloor>v + 1 / 2\<rfloor> = n" using assms(1,2) by (simp add: floor_eq_iff)
  with assms(3) show ?thesis by simp
qed

text \<open>Natural numbers up to \<open>2 ^ 53\<close> are doubles, so sums of counts are exact.\<close>

lemma round_even_of_int: "round_even (of_int m) = m"
  by (rule round_even_eqI) simp

lemma round64_exact:
  assumes "x \<noteq> 0" and "x / 2 powi (max (ilog2 \<bar>x\<bar> - 52) (- 1074)) = of_int m"
  shows "round64 x = x"
proof -
  let ?e = "max (ilog2 \<bar>x\<bar> - 52) (- 1074)"
  have "round64 x = of_int (round_even (x / 2 powi ?e)) * 2 powi ?e"
    using assms(1) by (simp add: round64_def Let_def)
  also have "\<dots> = x / 2 powi ?e * 2 powi ?e"
    by (simp only: assms(2) round_even_of_int)
  also have "\<dots> = x" by simp
  finally show ?thesis .
qed

lemma fl_of_nat:
  assumes "n \<le> 2 ^ 53"
  shows "fl (of_nat n) = Num (of_nat n)"
proof (cases "n = 0")
  case True
  then show ?thesis by (simp add: fl_zero)
next
  case False
  let ?x = "of_nat n :: rat"
  let ?k = "ilog2 ?x"
  have pos: "0 < ?x" and ge1: "1 \<le> ?x" using False by simp_all
  have le: "?x \<le> 2 ^ 53"
  proof -
    have "?x \<le> of_nat (2 ^ 53)" using assms by (simp only: of_nat_le_iff)
    then show ?thesis by simp
  qed
  note b = ilog2_bracket [OF pos]
  have k0: "0 \<le> ?k"
  proof (rule ccontr)
    assume "\<not> 0 \<le> ?k"
    then have "(2::rat) powi (?k + 1) \<le> 2 powi 0" by (intro powi_le_mono) simp
    with b ge1 show False by simp
  qed
  have k53: "?k \<le> 53"
  proof (rule ccontr)
    assume "\<not> ?k \<le> 53"
    then have "(2::rat) powi 54 \<le> 2 powi ?k" by (intro powi_le_mono) simp
    with b le show False by simp
  qed
  have e: "max (ilog2 \<bar>?x\<bar> - 52) (- 1074) = ?k - 52"
    using k0 by simp
  have "\<exists>m. ?x / 2 powi (?k - 52) = of_int m"
  proof (cases "?k \<le> 52")
    case True
    then have "(2::rat) powi (?k - 52) = inverse (2 powi (52 - ?k))"
      using power_int_minus [of "2::rat" "52 - ?k"] by simp
    also have "\<dots> = inverse (2 ^ nat (52 - ?k))"
      using True by (simp add: powi_int_nat)
    finally have "?x / 2 powi (?k - 52) = ?x * 2 ^ nat (52 - ?k)"
      by (simp add: field_simps)
    also have "\<dots> = of_int (int n * 2 ^ nat (52 - ?k))" by simp
    finally show ?thesis by blast
  next
    case False
    with k53 have k: "?k = 53" by simp
    with b have "(2::rat) ^ 53 \<le> ?x" by simp
    with le have x: "?x = 2 ^ 53" by simp
    have "(2::rat) powi (?k - 52) = 2" by (simp add: k)
    then have "?x / 2 powi (?k - 52) = ?x / 2" by (simp only:)
    also have "\<dots> = of_int (2 ^ 52)" by (simp add: x)
    finally show ?thesis by blast
  qed
  then obtain m where "?x / 2 powi (max (ilog2 \<bar>?x\<bar> - 52) (- 1074)) = of_int m"
    using e by auto
  with pos have "round64 ?x = ?x"
    using round64_exact [of ?x m] by simp
  moreover have "\<bar>?x\<bar> < 2 ^ 1024"
  proof -
    have "(2::rat) ^ 53 < 2 ^ 1024" by simp
    with le show ?thesis by simp
  qed
  ultimately show ?thesis by (simp add: fl_def)
qed

lemma fl_count:
  assumes "x \<in> \<nat>" and "x \<le> 2 ^ 53"
  shows "fl x = Num x"
proof -
  from assms(1) obtain n where n: "x = of_nat n" by (auto simp: Nats_def)
  with assms(2) have "(of_nat n :: rat) \<le> of_nat (2 ^ 53)" by simp
  then have "n \<le> 2 ^ 53" by (simp only: of_nat_le_iff)
  then show ?thesis unfolding n by (rule fl_of_nat)
qed

lemma sum64_counts:
  assumes "\<forall>i \<in> set its. f i \<in> \<nat>" and "a \<in> \<nat>"
    and "a + sum_list (map f its) \<le> 2 ^ 53"
  shows "foldl (\<lambda>s i. add64 s (lit (f i))) (Num a) its = Num (a + sum_list (map f its))"
  using assms
proof (induction its arbitrary: a)
  case Nil
  then show ?case by simp
next
  case (Cons i its)
  have fi: "f i \<in> \<nat>" and rest: "\<forall>j \<in> set its. f j \<in> \<nat>"
    using Cons.prems(1) by simp_all
  have a0: "0 \<le> a" and f0: "0 \<le> f i"
    using Cons.prems(2) fi by (auto simp: Nats_def)
  have "0 \<le> sum_list (map f its)"
    using rest by (intro sum_list_nonneg) (auto simp: Nats_def)
  then have le: "a + f i \<le> 2 ^ 53"
    using Cons.prems(3) by simp
  then have "f i \<le> 2 ^ 53" using a0 by simp
  then have l: "lit (f i) = Num (f i)"
    unfolding lit_def using fi by (intro fl_count)
  have nat: "a + f i \<in> \<nat>"
    using Cons.prems(2) fi by (rule Nats_add)
  have step: "add64 (Num a) (lit (f i)) = Num (a + f i)"
    using fl_count [OF nat le] by (simp add: l add64_Num)
  have "foldl (\<lambda>s i. add64 s (lit (f i))) (Num (a + f i)) its
          = Num (a + f i + sum_list (map f its))"
    using rest nat Cons.prems(3) by (intro Cons.IH) (simp_all add: add.assoc)
  then show ?case by (simp add: step add.assoc)
qed

section \<open>The priority of a row, in doubles\<close>

text \<open>
  C2. For a row with impressions \<open>i\<close> and visit rate \<open>r\<close>, a total \<open>T\<close> and a baseline
  \<open>b > 0\<close>, the priority is \<open>round (1000 * (i / T) - 100 * (r / b))\<close>, with the operations
  of the program: \<open>i\<close>, \<open>T\<close>, \<open>r\<close> and \<open>b\<close> are doubles, and so is each quotient, product
  and difference. The row with 1,000,000 impressions and rate 0.001 out of 2,000,000
  impressions at baseline 0.004 gets priority 475.
\<close>

theorem calcPriority64_formula:
  "(js_gt (lit b) (Num 0) \<and> visitRate it = Some r \<longrightarrow>
      calcPriority64 it b T
        = js_round (sub64 (mul64 (div64 (lit (impressions it)) (lit T)) (Num 1000))
                          (mul64 (div64 (lit r) (lit b)) (Num 100))))
   \<and> calcPriority64 \<lparr>impressions = 1000000, visitRate = Some (1 / 1000)\<rparr> (4 / 1000) 2000000
       = Num 475"
proof (intro conjI impI)
  assume "js_gt (lit b) (Num 0) \<and> visitRate it = Some r"
  then show "calcPriority64 it b T
        = js_round (sub64 (mul64 (div64 (lit (impressions it)) (lit T)) (Num 1000))
                          (mul64 (div64 (lit r) (lit b)) (Num 100)))"
    by (simp add: calcPriority64_def priority64_def lit_number_def)
next
  have s1: "lit 1000000 = Num 1000000"
    unfolding lit_def
    by (rule fl_eqI [where k = "19" and n = "8589934592000000" and e = "(- 33)"]) simp_all
  have s2: "lit 2000000 = Num 2000000"
    unfolding lit_def
    by (rule fl_eqI [where k = "20" and n = "8589934592000000" and e = "(- 32)"]) simp_all
  have s3: "lit (1 / 1000) = Num (1152921504606847 / 1152921504606846976)"
    unfolding lit_def
    by (rule fl_eqI [where k = "(- 10)" and n = "4611686018427388" and e = "(- 62)"]) simp_all
  have s4: "lit (4 / 1000) = Num (1152921504606847 / 288230376151711744)"
    unfolding lit_def
    by (rule fl_eqI [where k = "(- 8)" and n = "4611686018427388" and e = "(- 60)"]) simp_all
  have s5: "div64 (Num 1000000) (Num 2000000)
        = Num (1 / 2)"
    by (rule div64_eqI, simp, 
        rule fl_eqI [where k = "(- 1)" and n = "4503599627370496" and e = "(- 53)"])
      simp_all
  have s6: "mul64 (Num (1 / 2)) (Num 1000)
        = Num 500"
    by (rule mul64_eqI, 
        rule fl_eqI [where k = "8" and n = "8796093022208000" and e = "(- 44)"])
      simp_all
  have s7: "div64 (Num (1152921504606847 / 1152921504606846976)) (Num (1152921504606847 / 288230376151711744))
        = Num (1 / 4)"
    by (rule div64_eqI, simp, 
        rule fl_eqI [where k = "(- 2)" and n = "4503599627370496" and e = "(- 54)"])
      simp_all
  have s8: "mul64 (Num (1 / 4)) (Num 100)
        = Num 25"
    by (rule mul64_eqI, 
        rule fl_eqI [where k = "4" and n = "7036874417766400" and e = "(- 48)"])
      simp_all
  have s9: "sub64 (Num 500) (Num 25)
        = Num 475"
    by (rule sub64_eqI, 
        rule fl_eqI [where k = "8" and n = "8356288371097600" and e = "(- 44)"])
      simp_all
  have s10: "js_round (Num 475) = Num 475"
    by (rule js_round_eqI [where n = "475"]) simp_all
  have "js_gt (lit (4 / 1000)) (Num 0)" unfolding s4 by simp
  then have "calcPriority64 \<lparr>impressions = 1000000, visitRate = Some (1 / 1000)\<rparr>
        (4 / 1000) 2000000
      = js_round (sub64 (mul64 (div64 (lit 1000000) (lit 2000000)) (Num 1000))
                        (mul64 (div64 (lit (1 / 1000)) (lit (4 / 1000))) (Num 100)))"
    by (simp add: calcPriority64_def priority64_def lit_number_def)
  then show "calcPriority64 \<lparr>impressions = 1000000, visitRate = Some (1 / 1000)\<rparr>
        (4 / 1000) 2000000 = Num 475"
    by (simp only: s1 s2 s3 s4 s5 s6 s7 s8 s9 s10)
qed

text \<open>A row where the value of the expression is 15.5 before rounding: the doubles
  give 15.499999999999998 and the priority is 15.\<close>

theorem calcPriority64_formula_witness:
  "calcPriority64 \<lparr>impressions = 59, visitRate = Some (1 / 64)\<rparr> (3 / 8) 3000 = Num 15"
proof -
  have s1: "lit 59 = Num 59"
    unfolding lit_def
    by (rule fl_eqI [where k = "5" and n = "8303511812964352" and e = "(- 47)"]) simp_all
  have s2: "lit 3000 = Num 3000"
    unfolding lit_def
    by (rule fl_eqI [where k = "11" and n = "6597069766656000" and e = "(- 41)"]) simp_all
  have s3: "lit (1 / 64) = Num (1 / 64)"
    unfolding lit_def
    by (rule fl_eqI [where k = "(- 6)" and n = "4503599627370496" and e = "(- 58)"]) simp_all
  have s4: "lit (3 / 8) = Num (3 / 8)"
    unfolding lit_def
    by (rule fl_eqI [where k = "(- 2)" and n = "6755399441055744" and e = "(- 54)"]) simp_all
  have s5: "div64 (Num 59) (Num 3000)
        = Num (354283170686479 / 18014398509481984)"
    by (rule div64_eqI, simp, 
        rule fl_eqI [where k = "(- 6)" and n = "5668530730983664" and e = "(- 58)"])
      simp_all
  have s6: "mul64 (Num (354283170686479 / 18014398509481984)) (Num 1000)
        = Num (2767837270988117 / 140737488355328)"
    by (rule mul64_eqI, 
        rule fl_eqI [where k = "4" and n = "5535674541976234" and e = "(- 48)"])
      simp_all
  have s7: "div64 (Num (1 / 64)) (Num (3 / 8))
        = Num (6004799503160661 / 144115188075855872)"
    by (rule div64_eqI, simp, 
        rule fl_eqI [where k = "(- 5)" and n = "6004799503160661" and e = "(- 57)"])
      simp_all
  have s8: "mul64 (Num (6004799503160661 / 144115188075855872)) (Num 100)
        = Num (2345624805922133 / 562949953421312)"
    by (rule mul64_eqI, 
        rule fl_eqI [where k = "2" and n = "4691249611844266" and e = "(- 50)"])
      simp_all
  have s9: "sub64 (Num (2767837270988117 / 140737488355328)) (Num (2345624805922133 / 562949953421312))
        = Num (8725724278030335 / 562949953421312)"
    by (rule sub64_eqI, 
        rule fl_eqI [where k = "3" and n = "8725724278030335" and e = "(- 49)"])
      simp_all
  have s10: "js_round (Num (8725724278030335 / 562949953421312)) = Num 15"
    by (rule js_round_eqI [where n = "15"]) simp_all
  have "js_gt (lit (3 / 8)) (Num 0)" unfolding s4 by simp
  then have "calcPriority64 \<lparr>impressions = 59, visitRate = Some (1 / 64)\<rparr> (3 / 8) 3000
          = js_round (sub64 (mul64 (div64 (lit 59) (lit 3000)) (Num 1000))
                            (mul64 (div64 (lit (1 / 64)) (lit (3 / 8))) (Num 100)))"
    using calcPriority64_formula
      [of "3 / 8" "\<lparr>impressions = 59, visitRate = Some (1 / 64)\<rparr>" "1 / 64" 3000]
    by simp
  then show ?thesis by (simp only: s1 s2 s3 s4 s5 s6 s7 s8 s9 s10)
qed

section \<open>Geography scoring, in doubles\<close>



section \<open>Projected improvement, in doubles\<close>

lemma sumImps64_counts:
  assumes "\<forall>i \<in> set its. impressions i \<in> \<nat>" and "sum_list (map impressions its) \<le> 2 ^ 53"
  shows "sumImps64 its = Num (sum_list (map impressions its))"
  using sum64_counts [of its impressions 0] assms by (simp add: sumImps64_def)

lemma sumVisits64_counts:
  assumes "\<forall>i \<in> set its. visits i \<in> \<nat>" and "sum_list (map visits its) \<le> 2 ^ 53"
  shows "sumVisits64 its = Num (sum_list (map visits its))"
  using sum64_counts [of its visits 0] assms by (simp add: sumVisits64_def)

text \<open>
  C6. For every list of selected rows the projected figures are: excluded impressions,
  the sum of the rows' impressions; excluded visits, the sum of their visits; new rate,
  (total visits - excluded visits) / (total impressions - excluded impressions);
  improvement, 100 * (new rate / baseline - 1). The sums run from left to right and
  every operation gives a double; for counts (natural numbers that add up to at most
  \<open>2 ^ 53\<close>) the sums are the exact sums.
\<close>

theorem calcProj64_figures:
  "excImps64 (calcProj64 sm its) = sumImps64 its
   \<and> ((\<forall>i \<in> set its. impressions i \<in> \<nat>) \<and> sum_list (map impressions its) \<le> 2 ^ 53 \<longrightarrow>
        sumImps64 its = Num (sum_list (map impressions its)))
   \<and> ((\<forall>i \<in> set its. visits i \<in> \<nat>) \<and> sum_list (map visits its) \<le> 2 ^ 53 \<longrightarrow>
        sumVisits64 its = Num (sum_list (map visits its)))
   \<and> newRate64 (calcProj64 sm its)
       = div64 (sub64 (lit (totalVisits sm)) (sumVisits64 its))
               (sub64 (lit (totalImpressions sm)) (sumImps64 its))
   \<and> improvement64 (calcProj64 sm its)
       = mul64 (sub64 (div64 (newRate64 (calcProj64 sm its)) (lit (overallVisitRate sm)))
                      (Num 1)) (Num 100)"
proof (intro conjI impI)
  show "excImps64 (calcProj64 sm its) = sumImps64 its"
    by (simp add: calcProj64_def Let_def)
  show "newRate64 (calcProj64 sm its)
       = div64 (sub64 (lit (totalVisits sm)) (sumVisits64 its))
               (sub64 (lit (totalImpressions sm)) (sumImps64 its))"
    by (simp add: calcProj64_def Let_def)
  show "improvement64 (calcProj64 sm its)
       = mul64 (sub64 (div64 (newRate64 (calcProj64 sm its)) (lit (overallVisitRate sm)))
                      (Num 1)) (Num 100)"
    by (simp add: calcProj64_def Let_def)
next
  assume "(\<forall>i \<in> set its. impressions i \<in> \<nat>) \<and> sum_list (map impressions its) \<le> 2 ^ 53"
  then show "sumImps64 its = Num (sum_list (map impressions its))"
    by (simp add: sumImps64_counts)
next
  assume "(\<forall>i \<in> set its. visits i \<in> \<nat>) \<and> sum_list (map visits its) \<le> 2 ^ 53"
  then show "sumVisits64 its = Num (sum_list (map visits its))"
    by (simp add: sumVisits64_counts)
qed

text \<open>One row of 200 impressions and 2 visits taken out of 1000 impressions and 50
  visits, at baseline 0.05: the new rate is the double next to 0.06 and the improvement
  is 19.999999999999996.\<close>

theorem calcProj64_figures_witness:
  "excImps64 (calcProj64 \<lparr>totalImpressions = 1000, totalVisits = 50, overallVisitRate = 1 / 20\<rparr> [\<lparr>impressions = 200, visitRate = Some (1 / 100), ident = ''NBC'', visits = 2, dma = None, population = None, reallocationPriority = Num 180\<rparr>]) = Num 200
   \<and> newRate64 (calcProj64 \<lparr>totalImpressions = 1000, totalVisits = 50, overallVisitRate = 1 / 20\<rparr> [\<lparr>impressions = 200, visitRate = Some (1 / 100), ident = ''NBC'', visits = 2, dma = None, population = None, reallocationPriority = Num 180\<rparr>]) = Num (1080863910568919 / 18014398509481984)
   \<and> improvement64 (calcProj64 \<lparr>totalImpressions = 1000, totalVisits = 50, overallVisitRate = 1 / 20\<rparr> [\<lparr>impressions = 200, visitRate = Some (1 / 100), ident = ''NBC'', visits = 2, dma = None, population = None, reallocationPriority = Num 180\<rparr>]) = Num (5629499534213119 / 281474976710656)"
proof -
  let ?sm = "\<lparr>totalImpressions = 1000, totalVisits = 50, overallVisitRate = 1 / 20\<rparr>"
  let ?its = "[\<lparr>impressions = 200, visitRate = Some (1 / 100), ident = ''NBC'', visits = 2, dma = None, population = None, reallocationPriority = Num 180\<rparr>]"
  note t = calcProj64_figures [of ?sm ?its]
  have u1: "lit 50 = Num 50"
    unfolding lit_def
    by (rule fl_eqI [where k = "5" and n = "7036874417766400" and e = "(- 47)"]) simp_all
  have u2: "lit 1000 = Num 1000"
    unfolding lit_def
    by (rule fl_eqI [where k = "9" and n = "8796093022208000" and e = "(- 43)"]) simp_all
  have u3: "lit (1 / 20) = Num (3602879701896397 / 72057594037927936)"
    unfolding lit_def
    by (rule fl_eqI [where k = "(- 5)" and n = "7205759403792794" and e = "(- 57)"]) simp_all
  have u4: "sub64 (Num 50) (Num 2)
        = Num 48"
    by (rule sub64_eqI, 
        rule fl_eqI [where k = "5" and n = "6755399441055744" and e = "(- 47)"])
      simp_all
  have u5: "sub64 (Num 1000) (Num 200)
        = Num 800"
    by (rule sub64_eqI, 
        rule fl_eqI [where k = "9" and n = "7036874417766400" and e = "(- 43)"])
      simp_all
  have u6: "div64 (Num 48) (Num 800)
        = Num (1080863910568919 / 18014398509481984)"
    by (rule div64_eqI, simp, 
        rule fl_eqI [where k = "(- 5)" and n = "8646911284551352" and e = "(- 57)"])
      simp_all
  have u7: "div64 (Num (1080863910568919 / 18014398509481984)) (Num (3602879701896397 / 72057594037927936))
        = Num (5404319552844595 / 4503599627370496)"
    by (rule div64_eqI, simp, 
        rule fl_eqI [where k = "0" and n = "5404319552844595" and e = "(- 52)"])
      simp_all
  have u8: "sub64 (Num (5404319552844595 / 4503599627370496)) (Num 1)
        = Num (900719925474099 / 4503599627370496)"
    by (rule sub64_eqI, 
        rule fl_eqI [where k = "(- 3)" and n = "7205759403792792" and e = "(- 55)"])
      simp_all
  have u9: "mul64 (Num (900719925474099 / 4503599627370496)) (Num 100)
        = Num (5629499534213119 / 281474976710656)"
    by (rule mul64_eqI, 
        rule fl_eqI [where k = "4" and n = "5629499534213119" and e = "(- 48)"])
      simp_all
  have i: "sumImps64 ?its = Num 200"
    using t by simp
  have v: "sumVisits64 ?its = Num 2"
    using t by simp
  have e: "excImps64 (calcProj64 ?sm ?its) = Num 200"
    using t i by simp
  have "newRate64 (calcProj64 ?sm ?its)
          = div64 (sub64 (lit 50) (Num 2)) (sub64 (lit 1000) (Num 200))"
    using t by (simp add: i v)
  then have n: "newRate64 (calcProj64 ?sm ?its) = Num (1080863910568919 / 18014398509481984)"
    by (simp only: u1 u2 u4 u5 u6)
  have "improvement64 (calcProj64 ?sm ?its)
          = mul64 (sub64 (div64 (Num (1080863910568919 / 18014398509481984)) (lit (1 / 20))) (Num 1)) (Num 100)"
    using t by (simp add: n)
  then have m: "improvement64 (calcProj64 ?sm ?its) = Num (5629499534213119 / 281474976710656)"
    by (simp only: u3 u7 u8 u9)
  show ?thesis using e n m by simp
qed

section \<open>Ordering of the candidate rows\<close>

lemma js_le_trans: "js_le a b \<Longrightarrow> js_le b c \<Longrightarrow> js_le a c"
  by (cases a; cases b; cases c) auto

lemma cmp_pos: "js_gt (js_sub b a) (Num 0) \<Longrightarrow> js_le a b"
  by (cases a; cases b) (auto simp: js_sub_def)

lemma cmp_nonpos:
  "is_finite a \<Longrightarrow> is_finite b \<Longrightarrow> \<not> js_gt (js_sub b a) (Num 0) \<Longrightarrow> js_le b a"
  by (cases a; cases b) (auto simp: js_sub_def is_finite_def)

lemma mset_insort_cmp: "mset (insort_cmp cmp x ys) = add_mset x (mset ys)"
  by (induction ys) auto

lemma mset_sort_cmp: "mset (sort_cmp cmp xs) = mset xs"
  by (induction xs) (simp_all add: sort_cmp_def mset_insort_cmp)

lemma set_insort_cmp: "set (insort_cmp cmp x ys) = insert x (set ys)"
  by (induction ys) auto

lemma set_sort_cmp: "set (sort_cmp cmp xs) = set xs"
  by (induction xs) (simp_all add: sort_cmp_def set_insort_cmp)

lemma sorted_insort_cmp:
  assumes "sorted_wrt prioDesc ys"
    and "is_finite (reallocationPriority x)"
    and "\<forall>y \<in> set ys. is_finite (reallocationPriority y)"
  shows "sorted_wrt prioDesc (insort_cmp byPriorityDesc x ys)"
  using assms
proof (induction ys)
  case Nil
  then show ?case by simp
next
  case (Cons y ys)
  show ?case
  proof (cases "js_gt (byPriorityDesc x y) (Num 0)")
    case True
    then have "prioDesc y x"
      by (simp add: prioDesc_def byPriorityDesc_def cmp_pos)
    with Cons True show ?thesis
      by (auto simp: set_insort_cmp)
  next
    case False
    with Cons.prems have xy: "prioDesc x y"
      by (simp add: prioDesc_def byPriorityDesc_def cmp_nonpos)
    have "prioDesc x e" if "e \<in> set ys" for e
    proof -
      from Cons.prems that have "prioDesc y e" by simp
      with xy show ?thesis
        unfolding prioDesc_def by (blast intro: js_le_trans)
    qed
    with xy Cons.prems False show ?thesis by auto
  qed
qed

lemma sorted_sort_cmp:
  "\<forall>x \<in> set xs. is_finite (reallocationPriority x) \<Longrightarrow>
   sorted_wrt prioDesc (sort_cmp byPriorityDesc xs)"
proof (induction xs)
  case Nil
  then show ?case by (simp add: sort_cmp_def)
next
  case (Cons x xs)
  then have "sorted_wrt prioDesc (sort_cmp byPriorityDesc xs)" by simp
  moreover have "\<forall>y \<in> set (sort_cmp byPriorityDesc xs). is_finite (reallocationPriority y)"
    using Cons.prems by (simp add: set_sort_cmp)
  ultimately have
    "sorted_wrt prioDesc (insort_cmp byPriorityDesc x (sort_cmp byPriorityDesc xs))"
    using Cons.prems by (simp add: sorted_insort_cmp)
  then show ?case by (simp add: sort_cmp_def)
qed

lemma gt_neq: "js_gt (js_sub b a) (Num 0) \<Longrightarrow> a \<noteq> b"
  by (cases a; cases b) (auto simp: js_sub_def)

lemma filter_insort_cmp:
  "filter (\<lambda>r. reallocationPriority r = q) (insort_cmp byPriorityDesc x ys)
     = (if reallocationPriority x = q then x # filter (\<lambda>r. reallocationPriority r = q) ys
        else filter (\<lambda>r. reallocationPriority r = q) ys)"
proof (induction ys)
  case Nil
  then show ?case by simp
next
  case (Cons y ys)
  show ?case
  proof (cases "js_gt (byPriorityDesc x y) (Num 0)")
    case True
    then have "reallocationPriority x \<noteq> reallocationPriority y"
      unfolding byPriorityDesc_def by (rule gt_neq)
    with True Cons show ?thesis by auto
  next
    case False
    then show ?thesis by simp
  qed
qed

lemma sort_cmp_stable:
  "filter (\<lambda>r. reallocationPriority r = q) (sort_cmp byPriorityDesc xs)
     = filter (\<lambda>r. reallocationPriority r = q) xs"
proof (induction xs)
  case Nil
  then show ?case by (simp add: sort_cmp_def)
next
  case (Cons x xs)
  have "sort_cmp byPriorityDesc (x # xs)
          = insort_cmp byPriorityDesc x (sort_cmp byPriorityDesc xs)"
    by (simp add: sort_cmp_def)
  with Cons show ?case by (simp add: filter_insort_cmp)
qed

section \<open>Recommendation tiers\<close>

lemma pubRecommendations_eq:
  "pubRecommendations (analyzeData d) = pubTiers (summary d) (out_publishers (analyzeData d))"
  by (simp add: analyzeData_def Let_def)

lemma pubTiers_none_iff: "pubTiers sm pubs = None \<longleftrightarrow> pubs = []"
  by (simp add: pubTiers_def Let_def)

lemma pubRecommendations_none_iff:
  "pubRecommendations (analyzeData d) = None \<longleftrightarrow> publisherRows d = []"
  by (simp add: pubRecommendations_eq pubTiers_none_iff out_publishers_eq)

text \<open>
  C4, as the code has it. \<^verbatim>\<open>geoRecommendations\<close> always holds both tiers;
  \<^verbatim>\<open>pubRecommendations\<close> holds both tiers when the array read by
  \<^verbatim>\<open>advData.publishers || advData.contexts || []\<close> has a row and is \<^verbatim>\<open>null\<close> when it
  has none. Where every priority is a finite number, the rows are taken in descending
  order of priority, rows of equal priority in their order in the data. The publisher
  tiers are the first 5 rows with priority > 0 and visits > 0, and the first 8 rows
  with priority > -20. The ZIP tiers are the first 5 rows with priority > 0, visits > 0
  and within the market-area guardrail, and the first 10 rows with priority > -50
  within the guardrail.
\<close>

theorem tiers_selection:
  "(pubRecommendations (analyzeData d) = None \<longleftrightarrow> publisherRows d = [])
   \<and> (pubs = [] \<longrightarrow> pubTiers sm pubs = None)
   \<and> (pubs \<noteq> [] \<and> (\<forall>p \<in> set pubs. is_finite (reallocationPriority p)) \<longrightarrow>
        (\<exists>t. pubTiers sm pubs = Some t
           \<and> items (conservative t)
               = take 5 (filter (\<lambda>p. js_gt (reallocationPriority p) (Num 0) \<and> 0 < visits p)
                   (sort_cmp byPriorityDesc pubs))
           \<and> items (aggressive t)
               = take 8 (filter (\<lambda>p. js_gt (reallocationPriority p) (Num (- 20)))
                   (sort_cmp byPriorityDesc pubs))))
   \<and> ((\<forall>z \<in> set zips. is_finite (reallocationPriority z)) \<longrightarrow>
        items (conservative (geoTiers sm counts zips))
          = take 5 (filter (\<lambda>z. js_gt (reallocationPriority z) (Num 0) \<and> 0 < visits z
                                 \<and> dmaGuard counts z)
              (sort_cmp byPriorityDesc zips))
        \<and> items (aggressive (geoTiers sm counts zips))
          = take 10 (filter (\<lambda>z. js_gt (reallocationPriority z) (Num (- 50))
                                  \<and> dmaGuard counts z)
              (sort_cmp byPriorityDesc zips)))
   \<and> ((\<forall>r \<in> set rows. is_finite (reallocationPriority r)) \<longrightarrow>
        mset (sort_cmp byPriorityDesc rows) = mset rows
        \<and> sorted_wrt prioDesc (sort_cmp byPriorityDesc rows)
        \<and> (\<forall>q. filter (\<lambda>r. reallocationPriority r = q) (sort_cmp byPriorityDesc rows)
                 = filter (\<lambda>r. reallocationPriority r = q) rows))"
proof (intro conjI impI allI)
  show "pubRecommendations (analyzeData d) = None \<longleftrightarrow> publisherRows d = []"
    by (rule pubRecommendations_none_iff)
next
  assume "pubs = []"
  then show "pubTiers sm pubs = None"
    by (simp add: pubTiers_none_iff)
next
  assume "pubs \<noteq> [] \<and> (\<forall>p \<in> set pubs. is_finite (reallocationPriority p))"
  then show "\<exists>t. pubTiers sm pubs = Some t
           \<and> items (conservative t)
               = take 5 (filter (\<lambda>p. js_gt (reallocationPriority p) (Num 0) \<and> 0 < visits p)
                   (sort_cmp byPriorityDesc pubs))
           \<and> items (aggressive t)
               = take 8 (filter (\<lambda>p. js_gt (reallocationPriority p) (Num (- 20)))
                   (sort_cmp byPriorityDesc pubs))"
    by (simp add: pubTiers_def Let_def recommend_def consPubs_def aggPubs_def)
next
  show "items (conservative (geoTiers sm counts zips))
          = take 5 (filter (\<lambda>z. js_gt (reallocationPriority z) (Num 0) \<and> 0 < visits z
                                 \<and> dmaGuard counts z)
              (sort_cmp byPriorityDesc zips))"
    by (simp add: geoTiers_def Let_def recommend_def consZips_def)
next
  show "items (aggressive (geoTiers sm counts zips))
          = take 10 (filter (\<lambda>z. js_gt (reallocationPriority z) (Num (- 50))
                                  \<and> dmaGuard counts z)
              (sort_cmp byPriorityDesc zips))"
    by (simp add: geoTiers_def Let_def recommend_def aggZips_def)
next
  show "mset (sort_cmp byPriorityDesc rows) = mset rows"
    by (rule mset_sort_cmp)
next
  assume "\<forall>r \<in> set rows. is_finite (reallocationPriority r)"
  then show "sorted_wrt prioDesc (sort_cmp byPriorityDesc rows)"
    by (rule sorted_sort_cmp)
next
  fix q
  show "filter (\<lambda>r. reallocationPriority r = q) (sort_cmp byPriorityDesc rows)
          = filter (\<lambda>r. reallocationPriority r = q) rows"
    by (rule sort_cmp_stable)
qed

text \<open>No rows give no publisher recommendation; the 13 publisher rows and the 15 ZIP
  rows of advertiser 45143 give the five rows of highest priority, for the ZIP rows
  without the row of no visits.\<close>

theorem tiers_selection_witness:
  "pubTiers (summary noodles) [] = None
   \<and> map_option (\<lambda>t. map ident (items (conservative t)))
        (pubTiers (summary noodles) (out_publishers (analyzeData noodles)))
       = Some [''HBO Max'', ''NBC'', ''Paramount Streaming - Comedy'',
               ''Paramount Streaming - Drama'', ''Paramount Streaming - News'']
   \<and> map ident (items (conservative
        (geoTiers (summary noodles) (zipCounts noodles) (out_zipCodes (analyzeData noodles)))))
       = [''80001'', ''20068'', ''60666'', ''60701'', ''21203'']
   \<and> sorted_wrt prioDesc (sort_cmp byPriorityDesc (out_publishers (analyzeData noodles)))"
proof -
  let ?sm = "summary noodles"
  let ?pubs = "out_publishers (analyzeData noodles)"
  let ?zips = "out_zipCodes (analyzeData noodles)"
  let ?counts = "zipCounts noodles"
  have a: "pubTiers ?sm [] = None"
    using tiers_selection [of noodles "[]" ?sm "[]" ?counts "[]"] by blast
  have h1: "?pubs \<noteq> []"
    by (simp add: out_publishers_eq publisherRows_def noodles_def)
  have h2: "\<forall>p \<in> set ?pubs. is_finite (reallocationPriority p)"
    by code_simp
  have h3: "\<forall>z \<in> set ?zips. is_finite (reallocationPriority z)"
    by code_simp
  have e1: "map ident (take 5 (filter (\<lambda>p. js_gt (reallocationPriority p) (Num 0) \<and> 0 < visits p)
              (sort_cmp byPriorityDesc ?pubs)))
            = [''HBO Max'', ''NBC'', ''Paramount Streaming - Comedy'',
               ''Paramount Streaming - Drama'', ''Paramount Streaming - News'']"
    by code_simp
  have e2: "map ident (take 5 (filter (\<lambda>z. js_gt (reallocationPriority z) (Num 0) \<and> 0 < visits z
                                 \<and> dmaGuard ?counts z)
              (sort_cmp byPriorityDesc ?zips)))
            = [''80001'', ''20068'', ''60666'', ''60701'', ''21203'']"
    by code_simp
  obtain t where t: "pubTiers ?sm ?pubs = Some t"
    and c: "items (conservative t)
              = take 5 (filter (\<lambda>p. js_gt (reallocationPriority p) (Num 0) \<and> 0 < visits p)
                  (sort_cmp byPriorityDesc ?pubs))"
    using tiers_selection [of noodles ?pubs ?sm ?zips ?counts ?pubs] h1 h2 by blast
  have b: "map_option (\<lambda>t. map ident (items (conservative t))) (pubTiers ?sm ?pubs)
       = Some [''HBO Max'', ''NBC'', ''Paramount Streaming - Comedy'',
               ''Paramount Streaming - Drama'', ''Paramount Streaming - News'']"
    using t c e1 by simp
  have "items (conservative (geoTiers ?sm ?counts ?zips))
          = take 5 (filter (\<lambda>z. js_gt (reallocationPriority z) (Num 0) \<and> 0 < visits z
                                 \<and> dmaGuard ?counts z)
              (sort_cmp byPriorityDesc ?zips))"
    using tiers_selection [of noodles ?pubs ?sm ?zips ?counts ?pubs] h3 by blast
  then have g: "map ident (items (conservative (geoTiers ?sm ?counts ?zips)))
       = [''80001'', ''20068'', ''60666'', ''60701'', ''21203'']"
    using e2 by simp
  have s: "sorted_wrt prioDesc (sort_cmp byPriorityDesc ?pubs)"
    using tiers_selection [of noodles ?pubs ?sm ?zips ?counts ?pubs] h2 by blast
  show ?thesis using a b g s by simp
qed

text \<open>C4 as stated fails for the publisher dimension of advertiser 7389: the array of
  publisher rows is empty and the publisher recommendation is \<^verbatim>\<open>null\<close>, with neither
  tier.\<close>

theorem space_coast_no_publisher_tiers:
  "publisherRows space_coast = []
   \<and> pubRecommendations (analyzeData space_coast) = None"
  by (simp add: pubRecommendations_none_iff publisherRows_def space_coast_def)

text \<open>
  C5, at the data of the source. The module reference and the README of the
  repository list the guardrail ``max reallocation: 35% of total impressions''.
  \<^verbatim>\<open>analyzeData\<close> has no such limit: for advertiser 45143 the conservative publisher
  tier takes out 7,043,981 of 7,624,633 impressions.
\<close>

theorem noodles_exceeds_max_reallocation:
  "map_option (\<lambda>t. excImps (conservative t)) (pubRecommendations (analyzeData noodles))
     = Some 7043981
   \<and> 35 / 100 * totalImpressions (summary noodles) < 7043981"
  by code_simp

section \<open>Last-touch attribution: one credit for each episode\<close>

lemma top_peers_subset: "set (top_peers ts part) \<subseteq> set part"
  by (auto simp: top_peers_def)

lemma top_peers_max: "r \<in> set (top_peers ts part) \<Longrightarrow> r' \<in> set part \<Longrightarrow> ts r' \<le> ts r"
  by (auto simp: top_peers_def list_all_iff)

lemma top_peers_nonempty:
  assumes "part \<noteq> []"
  shows "top_peers ts part \<noteq> []"
proof -
  have fin: "finite (ts ` set part)" and ne: "ts ` set part \<noteq> {}"
    using assms by simp_all
  then have "Max (ts ` set part) \<in> ts ` set part"
    by (rule Max_in)
  then obtain r where r: "r \<in> set part" "ts r = Max (ts ` set part)"
    by auto
  have "ts r' \<le> ts r" if "r' \<in> set part" for r'
    using that r fin by simp
  then have "r \<in> set (top_peers ts part)"
    using r by (simp add: top_peers_def list_all_iff)
  then show ?thesis by auto
qed

lemma rn1_Some:
  assumes "part \<noteq> []"
  shows "\<exists>r. rn1 pick ts part = Some r \<and> r \<in> set (top_peers ts part)"
proof -
  let ?peers = "top_peers ts part"
  have ne: "?peers \<noteq> []" using assms by (rule top_peers_nonempty)
  then have "pick ?peers mod length ?peers < length ?peers" by simp
  then have "?peers ! (pick ?peers mod length ?peers) \<in> set ?peers" by (rule nth_mem)
  with ne show ?thesis by (simp add: rn1_def Let_def)
qed

lemma rn1_in_peers: "rn1 pick ts part = Some r \<Longrightarrow> r \<in> set (top_peers ts part)"
  by (cases "part = []") (use rn1_Some [of part pick ts] in \<open>auto simp: rn1_def top_peers_def\<close>)

lemma map_key_map_filter:
  "(\<forall>k \<in> set ks. \<exists>r. f k = Some r \<and> key r = k) \<Longrightarrow> map key (List.map_filter f ks) = ks"
  by (induction ks) (auto simp: map_filter_simps)

lemma set_map_filter: "set (List.map_filter f ks) = {r. \<exists>k \<in> set ks. f k = Some r}"
  by (induction ks) (auto simp: map_filter_simps split: option.splits)

lemma partition_nonempty: "k \<in> set (map key rows) \<Longrightarrow> partition_of key k rows \<noteq> []"
  by (auto simp: partition_of_def filter_empty_conv)

lemma keys_last_touch: "map key (last_touch key ts pick rows) = remdups (map key rows)"
proof -
  let ?f = "\<lambda>k. rn1 pick ts (partition_of key k rows)"
  have "\<exists>r. ?f k = Some r \<and> key r = k" if "k \<in> set (remdups (map key rows))" for k
  proof -
    from that have "k \<in> set (map key rows)" by simp
    then have "partition_of key k rows \<noteq> []"
      by (rule partition_nonempty)
    then obtain r where r: "rn1 pick ts (partition_of key k rows) = Some r"
      "r \<in> set (top_peers ts (partition_of key k rows))"
      using rn1_Some [of "partition_of key k rows" pick ts] by blast
    then have "r \<in> set (partition_of key k rows)"
      using top_peers_subset [of ts "partition_of key k rows"] by blast
    then have "key r = k" by (simp add: partition_of_def)
    with r show ?thesis by blast
  qed
  then have "map key (List.map_filter ?f (remdups (map key rows))) = remdups (map key rows)"
    using map_key_map_filter [of "remdups (map key rows)" ?f key] by blast
  then show ?thesis by (simp add: last_touch_def)
qed

lemma last_touch_member:
  assumes "c \<in> set (last_touch key ts pick rows)"
  shows "c \<in> set rows \<and> (\<forall>f \<in> set rows. key f = key c \<longrightarrow> ts f \<le> ts c)"
proof -
  from assms have "c \<in> {r. \<exists>k \<in> set (remdups (map key rows)).
                           rn1 pick ts (partition_of key k rows) = Some r}"
    unfolding last_touch_def set_map_filter .
  then obtain k where k: "rn1 pick ts (partition_of key k rows) = Some c"
    by blast
  then have p: "c \<in> set (top_peers ts (partition_of key k rows))"
    by (rule rn1_in_peers)
  then have m: "c \<in> set (partition_of key k rows)"
    using top_peers_subset [of ts "partition_of key k rows"] by blast
  then have kc: "key c = k" and "c \<in> set rows"
    by (simp_all add: partition_of_def)
  moreover have "ts f \<le> ts c" if "f \<in> set rows" "key f = key c" for f
  proof -
    from that kc have "f \<in> set (partition_of key k rows)" by (simp add: partition_of_def)
    with p show ?thesis by (rule top_peers_max)
  qed
  ultimately show ?thesis by blast
qed

lemma one_per_key:
  assumes "k \<in> set (map key rows)"
  shows "length (filter (\<lambda>c. key c = k) (last_touch key ts pick rows)) = 1"
proof -
  let ?out = "last_touch key ts pick rows"
  have "length (filter (\<lambda>c. key c = k) ?out) = length (filter (\<lambda>x. x = k) (map key ?out))"
    by (simp add: filter_map comp_def)
  also have "\<dots> = length (filter (\<lambda>x. x = k) (remdups (map key rows)))"
    by (simp add: keys_last_touch)
  also have "\<dots> = card ({x. x = k} \<inter> set (remdups (map key rows)))"
    by (rule distinct_length_filter) simp
  also have "{x. x = k} \<inter> set (remdups (map key rows)) = {k}"
    using assms by auto
  finally show ?thesis by simp
qed

lemma peers_equal_times:
  "r \<in> set (top_peers ts part) \<Longrightarrow> r' \<in> set (top_peers ts part) \<Longrightarrow> ts r = ts r'"
proof -
  assume r: "r \<in> set (top_peers ts part)" and r': "r' \<in> set (top_peers ts part)"
  from r r' have "r \<in> set part" "r' \<in> set part"
    using top_peers_subset [of ts part] by blast+
  then have "ts r' \<le> ts r" "ts r \<le> ts r'"
    using r r' by (simp_all add: top_peers_max)
  then show ?thesis by simp
qed

lemma rn1_pick_irrelevant:
  assumes "\<forall>f \<in> set part. \<forall>g \<in> set part. ts f = ts g \<longrightarrow> f = g"
  shows "rn1 pick1 ts part = rn1 pick2 ts part"
proof (cases "part = []")
  case True
  then show ?thesis by (simp add: rn1_def top_peers_def)
next
  case False
  obtain r1 where r1: "rn1 pick1 ts part = Some r1" "r1 \<in> set (top_peers ts part)"
    using rn1_Some [OF False, of pick1 ts] by blast
  obtain r2 where r2: "rn1 pick2 ts part = Some r2" "r2 \<in> set (top_peers ts part)"
    using rn1_Some [OF False, of pick2 ts] by blast
  have "ts r1 = ts r2" using r1(2) r2(2) by (rule peers_equal_times)
  moreover have "r1 \<in> set part" "r2 \<in> set part"
    using r1 r2 top_peers_subset [of ts part] by blast+
  ultimately have "r1 = r2" using assms by blast
  with r1 r2 show ?thesis by simp
qed

lemma last_touch_pick_irrelevant:
  assumes "\<forall>f \<in> set rows. \<forall>g \<in> set rows. key f = key g \<and> ts f = ts g \<longrightarrow> f = g"
  shows "last_touch key ts pick1 rows = last_touch key ts pick2 rows"
proof -
  have "rn1 pick1 ts (partition_of key k rows) = rn1 pick2 ts (partition_of key k rows)" for k
  proof (rule rn1_pick_irrelevant, intro ballI impI)
    fix f g
    assume "f \<in> set (partition_of key k rows)" "g \<in> set (partition_of key k rows)"
      and "ts f = ts g"
    then have "f \<in> set rows" "g \<in> set rows" "key f = key g \<and> ts f = ts g"
      by (simp_all add: partition_of_def)
    then show "f = g" using assms by blast
  qed
  then show ?thesis by (simp add: last_touch_def)
qed

text \<open>
  C1. Whatever the engine picks among peers, \<^verbatim>\<open>dedupe\<close> keeps exactly one row for each
  episode key of the input (device and visit date, or device and site-visit id); the
  row kept is a row of the input whose time is the latest of its episode; no rows give
  no rows.
\<close>

theorem dedupe_last_touch:
  "(\<forall>k \<in> set (map episode_key flags).
      length (filter (\<lambda>c. episode_key c = k) (dedupe pick flags)) = 1)
   \<and> (\<forall>c \<in> set (dedupe pick flags).
        c \<in> set flags
        \<and> (\<forall>f \<in> set flags. episode_key f = episode_key c \<longrightarrow> imp_time f \<le> imp_time c))
   \<and> dedupe pick [] = []"
proof (intro conjI ballI)
  fix k assume "k \<in> set (map episode_key flags)"
  then show "length (filter (\<lambda>c. episode_key c = k) (dedupe pick flags)) = 1"
    unfolding dedupe_def by (rule one_per_key)
next
  fix c assume c: "c \<in> set (dedupe pick flags)"
  then show "c \<in> set flags"
    unfolding dedupe_def using last_touch_member [of c episode_key imp_time pick flags] by blast
  fix f assume "f \<in> set flags"
  with c show "episode_key f = episode_key c \<longrightarrow> imp_time f \<le> imp_time c"
    unfolding dedupe_def using last_touch_member [of c episode_key imp_time pick flags] by blast
next
  show "dedupe pick [] = []"
    by (simp add: dedupe_def last_touch_def map_filter_simps)
qed

text \<open>Of the three impressions before the store visit the one at time 300 is kept, of
  the two before the web visit the one at time 130.\<close>

theorem dedupe_last_touch_witness:
  "length (filter (\<lambda>c. episode_key c = (''X'', StoreVisit 20)) (dedupe pick_first five_flags)) = 1
   \<and> map row_id (dedupe pick_first five_flags) = [''r3'', ''r2'']"
proof -
  have "(''X'', StoreVisit 20) \<in> set (map episode_key five_flags)"
    by (simp add: five_flags_def episode_key_def)
  then have "length (filter (\<lambda>c. episode_key c = (''X'', StoreVisit 20))
                 (dedupe pick_first five_flags)) = 1"
    using dedupe_last_touch [of five_flags pick_first] by blast
  moreover have "map row_id (dedupe pick_first five_flags) = [''r3'', ''r2'']"
    by code_simp
  ultimately show ?thesis by simp
qed

text \<open>
  C9, as the code has it. The window orders by the impression time alone, so the kept
  row is fixed by the input only where rows of one episode at one time are the same row:
  then every engine returns the same rows. The query has no tie-break on the identifier
  of the source row.
\<close>

theorem dedupe_deterministic_without_ties:
  assumes "\<forall>f \<in> set flags. \<forall>g \<in> set flags.
             episode_key f = episode_key g \<and> imp_time f = imp_time g \<longrightarrow> f = g"
  shows "dedupe pick1 flags = dedupe pick2 flags"
  unfolding dedupe_def using assms by (rule last_touch_pick_irrelevant)

theorem dedupe_deterministic_without_ties_witness:
  "dedupe pick_first five_flags = dedupe pick_second five_flags"
proof -
  have "\<forall>f \<in> set five_flags. \<forall>g \<in> set five_flags.
             episode_key f = episode_key g \<and> imp_time f = imp_time g \<longrightarrow> f = g"
    by (simp add: five_flags_def episode_key_def)
  then show ?thesis
    by (rule dedupe_deterministic_without_ties)
qed

text \<open>C9 as stated fails: of two rows at the same time one engine keeps row \<open>a\<close>, the
  other row \<open>b\<close>, the one with the greater identifier.\<close>

theorem tied_rows_engine_dependent:
  "map row_id (dedupe pick_first tied_flags) = [''a'']
   \<and> map row_id (dedupe pick_second tied_flags) = [''b'']"
  by code_simp

end
